theory Spec2Isabelle
  imports Main
begin

section \<open>A shallow embedding of the Telebirr receipt checker\<close>

text \<open>
  The development follows \<^verbatim>\<open>backend/telebirr.py\<close> and \<^verbatim>\<open>backend/bot.py\<close>.
  A Python exception is a value of \<open>exn\<close>; a computation that may raise returns
  \<open>exn + 'a\<close> with \<open>Inl\<close> for the raised exception. Every constructor of \<open>exn\<close> is an
  instance of Python's \<^verbatim>\<open>Exception\<close>; \<open>RequestException\<close> stands for
  \<^verbatim>\<open>requests.exceptions.RequestException\<close> and its subclasses, \<open>NetworkError\<close> for an
  error raised by the Telegram client, \<open>RuntimeError\<close> for any other exception.
  Calls to the logger have no effect on any result and are left out.
\<close>

datatype exn = IndexError | ValueError | RequestException | NetworkError | RuntimeError

subsection \<open>Python's strings\<close>

text \<open>
  A Python \<^verbatim>\<open>str\<close> is a sequence of Unicode code points, so a text is a list of
  integers and its length counts code points. \<open>str_of\<close> turns an ASCII literal into
  such a list and \<open>cp\<close> gives the code point of an ASCII character.
\<close>

type_synonym str = "int list"

definition cp :: "char \<Rightarrow> int" where
  "cp c = of_char c"

definition str_of :: "string \<Rightarrow> str" where
  "str_of s = map cp s"

text \<open>
  \<^verbatim>\<open>str.isspace\<close>, which is also the whitespace of \<^verbatim>\<open>str.strip\<close> and \<^verbatim>\<open>str.split\<close>:
  the control characters U+0009 to U+000D and U+001C to U+001F, the space, U+0085,
  U+00A0, U+1680, U+2000 to U+200A, U+2028, U+2029, U+202F, U+205F and U+3000.
\<close>

definition isspace :: "int \<Rightarrow> bool" where
  "isspace c =
     ((0x09 \<le> c \<and> c \<le> 0x0D) \<or> (0x1C \<le> c \<and> c \<le> 0x20) \<or> c = 0x85 \<or> c = 0xA0 \<or>
      c = 0x1680 \<or> (0x2000 \<le> c \<and> c \<le> 0x200A) \<or> c = 0x2028 \<or> c = 0x2029 \<or>
      c = 0x202F \<or> c = 0x205F \<or> c = 0x3000)"

subsection \<open>The case mappings of Unicode 14.0\<close>

text \<open>
  \<^verbatim>\<open>str.lower\<close> and \<^verbatim>\<open>str.upper\<close> apply the full case mappings of the Unicode
  character database. The one-to-one mappings are kept as runs \<open>(lo, hi, step, d)\<close>:
  every code point \<open>c\<close> from \<open>lo\<close> to \<open>hi\<close> with \<open>c - lo\<close> a multiple of \<open>step\<close> is
  mapped to \<open>c + d\<close>, and every code point in no run is mapped to itself. The runs are
  in increasing order and do not overlap, so a search stops at the first run that
  starts after the code point.
\<close>

definition lower_table :: "(int \<times> int \<times> int \<times> int) list" where
  "lower_table = [
     (0x41, 0x5A, 1, 32), (0xC0, 0xD6, 1, 32), (0xD8, 0xDE, 1, 32),
     (0x100, 0x12E, 2, 1), (0x132, 0x136, 2, 1), (0x139, 0x147, 2, 1),
     (0x14A, 0x176, 2, 1), (0x178, 0x178, 1, - 121), (0x179, 0x17D, 2, 1),
     (0x181, 0x181, 1, 210), (0x182, 0x184, 2, 1), (0x186, 0x186, 1, 206),
     (0x187, 0x187, 1, 1), (0x189, 0x18A, 1, 205), (0x18B, 0x18B, 1, 1),
     (0x18E, 0x18E, 1, 79), (0x18F, 0x18F, 1, 202), (0x190, 0x190, 1, 203),
     (0x191, 0x191, 1, 1), (0x193, 0x193, 1, 205), (0x194, 0x194, 1, 207),
     (0x196, 0x196, 1, 211), (0x197, 0x197, 1, 209), (0x198, 0x198, 1, 1),
     (0x19C, 0x19C, 1, 211), (0x19D, 0x19D, 1, 213), (0x19F, 0x19F, 1, 214),
     (0x1A0, 0x1A4, 2, 1), (0x1A6, 0x1A6, 1, 218), (0x1A7, 0x1A7, 1, 1),
     (0x1A9, 0x1A9, 1, 218), (0x1AC, 0x1AC, 1, 1), (0x1AE, 0x1AE, 1, 218),
     (0x1AF, 0x1AF, 1, 1), (0x1B1, 0x1B2, 1, 217), (0x1B3, 0x1B5, 2, 1),
     (0x1B7, 0x1B7, 1, 219), (0x1B8, 0x1B8, 1, 1), (0x1BC, 0x1BC, 1, 1),
     (0x1C4, 0x1C4, 1, 2), (0x1C5, 0x1C5, 1, 1), (0x1C7, 0x1C7, 1, 2),
     (0x1C8, 0x1C8, 1, 1), (0x1CA, 0x1CA, 1, 2), (0x1CB, 0x1DB, 2, 1),
     (0x1DE, 0x1EE, 2, 1), (0x1F1, 0x1F1, 1, 2), (0x1F2, 0x1F4, 2, 1),
     (0x1F6, 0x1F6, 1, - 97), (0x1F7, 0x1F7, 1, - 56), (0x1F8, 0x21E, 2, 1),
     (0x220, 0x220, 1, - 130), (0x222, 0x232, 2, 1), (0x23A, 0x23A, 1, 10795),
     (0x23B, 0x23B, 1, 1), (0x23D, 0x23D, 1, - 163), (0x23E, 0x23E, 1, 10792),
     (0x241, 0x241, 1, 1), (0x243, 0x243, 1, - 195), (0x244, 0x244, 1, 69),
     (0x245, 0x245, 1, 71), (0x246, 0x24E, 2, 1), (0x370, 0x372, 2, 1),
     (0x376, 0x376, 1, 1), (0x37F, 0x37F, 1, 116), (0x386, 0x386, 1, 38),
     (0x388, 0x38A, 1, 37), (0x38C, 0x38C, 1, 64), (0x38E, 0x38F, 1, 63),
     (0x391, 0x3A1, 1, 32), (0x3A3, 0x3AB, 1, 32), (0x3CF, 0x3CF, 1, 8),
     (0x3D8, 0x3EE, 2, 1), (0x3F4, 0x3F4, 1, - 60), (0x3F7, 0x3F7, 1, 1),
     (0x3F9, 0x3F9, 1, - 7), (0x3FA, 0x3FA, 1, 1), (0x3FD, 0x3FF, 1, - 130),
     (0x400, 0x40F, 1, 80), (0x410, 0x42F, 1, 32), (0x460, 0x480, 2, 1),
     (0x48A, 0x4BE, 2, 1), (0x4C0, 0x4C0, 1, 15), (0x4C1, 0x4CD, 2, 1),
     (0x4D0, 0x52E, 2, 1), (0x531, 0x556, 1, 48), (0x10A0, 0x10C5, 1, 7264),
     (0x10C7, 0x10C7, 1, 7264), (0x10CD, 0x10CD, 1, 7264), (0x13A0, 0x13EF, 1, 38864),
     (0x13F0, 0x13F5, 1, 8), (0x1C90, 0x1CBA, 1, - 3008), (0x1CBD, 0x1CBF, 1, - 3008),
     (0x1E00, 0x1E94, 2, 1), (0x1E9E, 0x1E9E, 1, - 7615), (0x1EA0, 0x1EFE, 2, 1),
     (0x1F08, 0x1F0F, 1, - 8), (0x1F18, 0x1F1D, 1, - 8), (0x1F28, 0x1F2F, 1, - 8),
     (0x1F38, 0x1F3F, 1, - 8), (0x1F48, 0x1F4D, 1, - 8), (0x1F59, 0x1F5F, 2, - 8),
     (0x1F68, 0x1F6F, 1, - 8), (0x1F88, 0x1F8F, 1, - 8), (0x1F98, 0x1F9F, 1, - 8),
     (0x1FA8, 0x1FAF, 1, - 8), (0x1FB8, 0x1FB9, 1, - 8), (0x1FBA, 0x1FBB, 1, - 74),
     (0x1FBC, 0x1FBC, 1, - 9), (0x1FC8, 0x1FCB, 1, - 86), (0x1FCC, 0x1FCC, 1, - 9),
     (0x1FD8, 0x1FD9, 1, - 8), (0x1FDA, 0x1FDB, 1, - 100), (0x1FE8, 0x1FE9, 1, - 8),
     (0x1FEA, 0x1FEB, 1, - 112), (0x1FEC, 0x1FEC, 1, - 7), (0x1FF8, 0x1FF9, 1, - 128),
     (0x1FFA, 0x1FFB, 1, - 126), (0x1FFC, 0x1FFC, 1, - 9), (0x2126, 0x2126, 1, - 7517),
     (0x212A, 0x212A, 1, - 8383), (0x212B, 0x212B, 1, - 8262), (0x2132, 0x2132, 1, 28),
     (0x2160, 0x216F, 1, 16), (0x2183, 0x2183, 1, 1), (0x24B6, 0x24CF, 1, 26),
     (0x2C00, 0x2C2F, 1, 48), (0x2C60, 0x2C60, 1, 1), (0x2C62, 0x2C62, 1, - 10743),
     (0x2C63, 0x2C63, 1, - 3814), (0x2C64, 0x2C64, 1, - 10727), (0x2C67, 0x2C6B, 2, 1),
     (0x2C6D, 0x2C6D, 1, - 10780), (0x2C6E, 0x2C6E, 1, - 10749), (0x2C6F, 0x2C6F, 1, - 10783),
     (0x2C70, 0x2C70, 1, - 10782), (0x2C72, 0x2C72, 1, 1), (0x2C75, 0x2C75, 1, 1),
     (0x2C7E, 0x2C7F, 1, - 10815), (0x2C80, 0x2CE2, 2, 1), (0x2CEB, 0x2CED, 2, 1),
     (0x2CF2, 0x2CF2, 1, 1), (0xA640, 0xA66C, 2, 1), (0xA680, 0xA69A, 2, 1),
     (0xA722, 0xA72E, 2, 1), (0xA732, 0xA76E, 2, 1), (0xA779, 0xA77B, 2, 1),
     (0xA77D, 0xA77D, 1, - 35332), (0xA77E, 0xA786, 2, 1), (0xA78B, 0xA78B, 1, 1),
     (0xA78D, 0xA78D, 1, - 42280), (0xA790, 0xA792, 2, 1), (0xA796, 0xA7A8, 2, 1),
     (0xA7AA, 0xA7AA, 1, - 42308), (0xA7AB, 0xA7AB, 1, - 42319), (0xA7AC, 0xA7AC, 1, - 42315),
     (0xA7AD, 0xA7AD, 1, - 42305), (0xA7AE, 0xA7AE, 1, - 42308), (0xA7B0, 0xA7B0, 1, - 42258),
     (0xA7B1, 0xA7B1, 1, - 42282), (0xA7B2, 0xA7B2, 1, - 42261), (0xA7B3, 0xA7B3, 1, 928),
     (0xA7B4, 0xA7C2, 2, 1), (0xA7C4, 0xA7C4, 1, - 48), (0xA7C5, 0xA7C5, 1, - 42307),
     (0xA7C6, 0xA7C6, 1, - 35384), (0xA7C7, 0xA7C9, 2, 1), (0xA7D0, 0xA7D0, 1, 1),
     (0xA7D6, 0xA7D8, 2, 1), (0xA7F5, 0xA7F5, 1, 1), (0xFF21, 0xFF3A, 1, 32),
     (0x10400, 0x10427, 1, 40), (0x104B0, 0x104D3, 1, 40), (0x10570, 0x1057A, 1, 39),
     (0x1057C, 0x1058A, 1, 39), (0x1058C, 0x10592, 1, 39), (0x10594, 0x10595, 1, 39),
     (0x10C80, 0x10CB2, 1, 64), (0x118A0, 0x118BF, 1, 32), (0x16E40, 0x16E5F, 1, 32),
     (0x1E900, 0x1E921, 1, 34)]"

definition upper_table :: "(int \<times> int \<times> int \<times> int) list" where
  "upper_table = [
     (0x61, 0x7A, 1, - 32), (0xB5, 0xB5, 1, 743), (0xE0, 0xF6, 1, - 32),
     (0xF8, 0xFE, 1, - 32), (0xFF, 0xFF, 1, 121), (0x101, 0x12F, 2, - 1),
     (0x131, 0x131, 1, - 232), (0x133, 0x137, 2, - 1), (0x13A, 0x148, 2, - 1),
     (0x14B, 0x177, 2, - 1), (0x17A, 0x17E, 2, - 1), (0x17F, 0x17F, 1, - 300),
     (0x180, 0x180, 1, 195), (0x183, 0x185, 2, - 1), (0x188, 0x188, 1, - 1),
     (0x18C, 0x18C, 1, - 1), (0x192, 0x192, 1, - 1), (0x195, 0x195, 1, 97),
     (0x199, 0x199, 1, - 1), (0x19A, 0x19A, 1, 163), (0x19E, 0x19E, 1, 130),
     (0x1A1, 0x1A5, 2, - 1), (0x1A8, 0x1A8, 1, - 1), (0x1AD, 0x1AD, 1, - 1),
     (0x1B0, 0x1B0, 1, - 1), (0x1B4, 0x1B6, 2, - 1), (0x1B9, 0x1B9, 1, - 1),
     (0x1BD, 0x1BD, 1, - 1), (0x1BF, 0x1BF, 1, 56), (0x1C5, 0x1C5, 1, - 1),
     (0x1C6, 0x1C6, 1, - 2), (0x1C8, 0x1C8, 1, - 1), (0x1C9, 0x1C9, 1, - 2),
     (0x1CB, 0x1CB, 1, - 1), (0x1CC, 0x1CC, 1, - 2), (0x1CE, 0x1DC, 2, - 1),
     (0x1DD, 0x1DD, 1, - 79), (0x1DF, 0x1EF, 2, - 1), (0x1F2, 0x1F2, 1, - 1),
     (0x1F3, 0x1F3, 1, - 2), (0x1F5, 0x1F5, 1, - 1), (0x1F9, 0x21F, 2, - 1),
     (0x223, 0x233, 2, - 1), (0x23C, 0x23C, 1, - 1), (0x23F, 0x240, 1, 10815),
     (0x242, 0x242, 1, - 1), (0x247, 0x24F, 2, - 1), (0x250, 0x250, 1, 10783),
     (0x251, 0x251, 1, 10780), (0x252, 0x252, 1, 10782), (0x253, 0x253, 1, - 210),
     (0x254, 0x254, 1, - 206), (0x256, 0x257, 1, - 205), (0x259, 0x259, 1, - 202),
     (0x25B, 0x25B, 1, - 203), (0x25C, 0x25C, 1, 42319), (0x260, 0x260, 1, - 205),
     (0x261, 0x261, 1, 42315), (0x263, 0x263, 1, - 207), (0x265, 0x265, 1, 42280),
     (0x266, 0x266, 1, 42308), (0x268, 0x268, 1, - 209), (0x269, 0x269, 1, - 211),
     (0x26A, 0x26A, 1, 42308), (0x26B, 0x26B, 1, 10743), (0x26C, 0x26C, 1, 42305),
     (0x26F, 0x26F, 1, - 211), (0x271, 0x271, 1, 10749), (0x272, 0x272, 1, - 213),
     (0x275, 0x275, 1, - 214), (0x27D, 0x27D, 1, 10727), (0x280, 0x280, 1, - 218),
     (0x282, 0x282, 1, 42307), (0x283, 0x283, 1, - 218), (0x287, 0x287, 1, 42282),
     (0x288, 0x288, 1, - 218), (0x289, 0x289, 1, - 69), (0x28A, 0x28B, 1, - 217),
     (0x28C, 0x28C, 1, - 71), (0x292, 0x292, 1, - 219), (0x29D, 0x29D, 1, 42261),
     (0x29E, 0x29E, 1, 42258), (0x345, 0x345, 1, 84), (0x371, 0x373, 2, - 1),
     (0x377, 0x377, 1, - 1), (0x37B, 0x37D, 1, 130), (0x3AC, 0x3AC, 1, - 38),
     (0x3AD, 0x3AF, 1, - 37), (0x3B1, 0x3C1, 1, - 32), (0x3C2, 0x3C2, 1, - 31),
     (0x3C3, 0x3CB, 1, - 32), (0x3CC, 0x3CC, 1, - 64), (0x3CD, 0x3CE, 1, - 63),
     (0x3D0, 0x3D0, 1, - 62), (0x3D1, 0x3D1, 1, - 57), (0x3D5, 0x3D5, 1, - 47),
     (0x3D6, 0x3D6, 1, - 54), (0x3D7, 0x3D7, 1, - 8), (0x3D9, 0x3EF, 2, - 1),
     (0x3F0, 0x3F0, 1, - 86), (0x3F1, 0x3F1, 1, - 80), (0x3F2, 0x3F2, 1, 7),
     (0x3F3, 0x3F3, 1, - 116), (0x3F5, 0x3F5, 1, - 96), (0x3F8, 0x3F8, 1, - 1),
     (0x3FB, 0x3FB, 1, - 1), (0x430, 0x44F, 1, - 32), (0x450, 0x45F, 1, - 80),
     (0x461, 0x481, 2, - 1), (0x48B, 0x4BF, 2, - 1), (0x4C2, 0x4CE, 2, - 1),
     (0x4CF, 0x4CF, 1, - 15), (0x4D1, 0x52F, 2, - 1), (0x561, 0x586, 1, - 48),
     (0x10D0, 0x10FA, 1, 3008), (0x10FD, 0x10FF, 1, 3008), (0x13F8, 0x13FD, 1, - 8),
     (0x1C80, 0x1C80, 1, - 6254), (0x1C81, 0x1C81, 1, - 6253), (0x1C82, 0x1C82, 1, - 6244),
     (0x1C83, 0x1C84, 1, - 6242), (0x1C85, 0x1C85, 1, - 6243), (0x1C86, 0x1C86, 1, - 6236),
     (0x1C87, 0x1C87, 1, - 6181), (0x1C88, 0x1C88, 1, 35266), (0x1D79, 0x1D79, 1, 35332),
     (0x1D7D, 0x1D7D, 1, 3814), (0x1D8E, 0x1D8E, 1, 35384), (0x1E01, 0x1E95, 2, - 1),
     (0x1E9B, 0x1E9B, 1, - 59), (0x1EA1, 0x1EFF, 2, - 1), (0x1F00, 0x1F07, 1, 8),
     (0x1F10, 0x1F15, 1, 8), (0x1F20, 0x1F27, 1, 8), (0x1F30, 0x1F37, 1, 8),
     (0x1F40, 0x1F45, 1, 8), (0x1F51, 0x1F57, 2, 8), (0x1F60, 0x1F67, 1, 8),
     (0x1F70, 0x1F71, 1, 74), (0x1F72, 0x1F75, 1, 86), (0x1F76, 0x1F77, 1, 100),
     (0x1F78, 0x1F79, 1, 128), (0x1F7A, 0x1F7B, 1, 112), (0x1F7C, 0x1F7D, 1, 126),
     (0x1FB0, 0x1FB1, 1, 8), (0x1FBE, 0x1FBE, 1, - 7205), (0x1FD0, 0x1FD1, 1, 8),
     (0x1FE0, 0x1FE1, 1, 8), (0x1FE5, 0x1FE5, 1, 7), (0x214E, 0x214E, 1, - 28),
     (0x2170, 0x217F, 1, - 16), (0x2184, 0x2184, 1, - 1), (0x24D0, 0x24E9, 1, - 26),
     (0x2C30, 0x2C5F, 1, - 48), (0x2C61, 0x2C61, 1, - 1), (0x2C65, 0x2C65, 1, - 10795),
     (0x2C66, 0x2C66, 1, - 10792), (0x2C68, 0x2C6C, 2, - 1), (0x2C73, 0x2C73, 1, - 1),
     (0x2C76, 0x2C76, 1, - 1), (0x2C81, 0x2CE3, 2, - 1), (0x2CEC, 0x2CEE, 2, - 1),
     (0x2CF3, 0x2CF3, 1, - 1), (0x2D00, 0x2D25, 1, - 7264), (0x2D27, 0x2D27, 1, - 7264),
     (0x2D2D, 0x2D2D, 1, - 7264), (0xA641, 0xA66D, 2, - 1), (0xA681, 0xA69B, 2, - 1),
     (0xA723, 0xA72F, 2, - 1), (0xA733, 0xA76F, 2, - 1), (0xA77A, 0xA77C, 2, - 1),
     (0xA77F, 0xA787, 2, - 1), (0xA78C, 0xA78C, 1, - 1), (0xA791, 0xA793, 2, - 1),
     (0xA794, 0xA794, 1, 48), (0xA797, 0xA7A9, 2, - 1), (0xA7B5, 0xA7C3, 2, - 1),
     (0xA7C8, 0xA7CA, 2, - 1), (0xA7D1, 0xA7D1, 1, - 1), (0xA7D7, 0xA7D9, 2, - 1),
     (0xA7F6, 0xA7F6, 1, - 1), (0xAB53, 0xAB53, 1, - 928), (0xAB70, 0xABBF, 1, - 38864),
     (0xFF41, 0xFF5A, 1, - 32), (0x10428, 0x1044F, 1, - 40), (0x104D8, 0x104FB, 1, - 40),
     (0x10597, 0x105A1, 1, - 39), (0x105A3, 0x105B1, 1, - 39), (0x105B3, 0x105B9, 1, - 39),
     (0x105BB, 0x105BC, 1, - 39), (0x10CC0, 0x10CF2, 1, - 64), (0x118C0, 0x118DF, 1, - 32),
     (0x16E60, 0x16E7F, 1, - 32), (0x1E922, 0x1E943, 1, - 34)]"

fun simple_case :: "int \<Rightarrow> (int \<times> int \<times> int \<times> int) list \<Rightarrow> int" where
  "simple_case c [] = c"
| "simple_case c ((lo, hi, step, d) # rs) =
     (if c < lo then c
      else if c \<le> hi \<and> (c - lo) mod step = 0 then c + d
      else simple_case c rs)"

text \<open>
  The code points whose upper-casing is more than one code point, with their
  upper-casing, in increasing order; U+00DF, for one, becomes \<^verbatim>\<open>SS\<close>.
\<close>

definition special_upper :: "(int \<times> int list) list" where
  "special_upper = [
     (0xDF, [0x53, 0x53]), (0x149, [0x2BC, 0x4E]), (0x1F0, [0x4A, 0x30C]),
     (0x390, [0x399, 0x308, 0x301]), (0x3B0, [0x3A5, 0x308, 0x301]), (0x587, [0x535, 0x552]),
     (0x1E96, [0x48, 0x331]), (0x1E97, [0x54, 0x308]), (0x1E98, [0x57, 0x30A]),
     (0x1E99, [0x59, 0x30A]), (0x1E9A, [0x41, 0x2BE]), (0x1F50, [0x3A5, 0x313]),
     (0x1F52, [0x3A5, 0x313, 0x300]), (0x1F54, [0x3A5, 0x313, 0x301]), (0x1F56, [0x3A5, 0x313, 0x342]),
     (0x1F80, [0x1F08, 0x399]), (0x1F81, [0x1F09, 0x399]), (0x1F82, [0x1F0A, 0x399]),
     (0x1F83, [0x1F0B, 0x399]), (0x1F84, [0x1F0C, 0x399]), (0x1F85, [0x1F0D, 0x399]),
     (0x1F86, [0x1F0E, 0x399]), (0x1F87, [0x1F0F, 0x399]), (0x1F88, [0x1F08, 0x399]),
     (0x1F89, [0x1F09, 0x399]), (0x1F8A, [0x1F0A, 0x399]), (0x1F8B, [0x1F0B, 0x399]),
     (0x1F8C, [0x1F0C, 0x399]), (0x1F8D, [0x1F0D, 0x399]), (0x1F8E, [0x1F0E, 0x399]),
     (0x1F8F, [0x1F0F, 0x399]), (0x1F90, [0x1F28, 0x399]), (0x1F91, [0x1F29, 0x399]),
     (0x1F92, [0x1F2A, 0x399]), (0x1F93, [0x1F2B, 0x399]), (0x1F94, [0x1F2C, 0x399]),
     (0x1F95, [0x1F2D, 0x399]), (0x1F96, [0x1F2E, 0x399]), (0x1F97, [0x1F2F, 0x399]),
     (0x1F98, [0x1F28, 0x399]), (0x1F99, [0x1F29, 0x399]), (0x1F9A, [0x1F2A, 0x399]),
     (0x1F9B, [0x1F2B, 0x399]), (0x1F9C, [0x1F2C, 0x399]), (0x1F9D, [0x1F2D, 0x399]),
     (0x1F9E, [0x1F2E, 0x399]), (0x1F9F, [0x1F2F, 0x399]), (0x1FA0, [0x1F68, 0x399]),
     (0x1FA1, [0x1F69, 0x399]), (0x1FA2, [0x1F6A, 0x399]), (0x1FA3, [0x1F6B, 0x399]),
     (0x1FA4, [0x1F6C, 0x399]), (0x1FA5, [0x1F6D, 0x399]), (0x1FA6, [0x1F6E, 0x399]),
     (0x1FA7, [0x1F6F, 0x399]), (0x1FA8, [0x1F68, 0x399]), (0x1FA9, [0x1F69, 0x399]),
     (0x1FAA, [0x1F6A, 0x399]), (0x1FAB, [0x1F6B, 0x399]), (0x1FAC, [0x1F6C, 0x399]),
     (0x1FAD, [0x1F6D, 0x399]), (0x1FAE, [0x1F6E, 0x399]), (0x1FAF, [0x1F6F, 0x399]),
     (0x1FB2, [0x1FBA, 0x399]), (0x1FB3, [0x391, 0x399]), (0x1FB4, [0x386, 0x399]),
     (0x1FB6, [0x391, 0x342]), (0x1FB7, [0x391, 0x342, 0x399]), (0x1FBC, [0x391, 0x399]),
     (0x1FC2, [0x1FCA, 0x399]), (0x1FC3, [0x397, 0x399]), (0x1FC4, [0x389, 0x399]),
     (0x1FC6, [0x397, 0x342]), (0x1FC7, [0x397, 0x342, 0x399]), (0x1FCC, [0x397, 0x399]),
     (0x1FD2, [0x399, 0x308, 0x300]), (0x1FD3, [0x399, 0x308, 0x301]), (0x1FD6, [0x399, 0x342]),
     (0x1FD7, [0x399, 0x308, 0x342]), (0x1FE2, [0x3A5, 0x308, 0x300]), (0x1FE3, [0x3A5, 0x308, 0x301]),
     (0x1FE4, [0x3A1, 0x313]), (0x1FE6, [0x3A5, 0x342]), (0x1FE7, [0x3A5, 0x308, 0x342]),
     (0x1FF2, [0x1FFA, 0x399]), (0x1FF3, [0x3A9, 0x399]), (0x1FF4, [0x38F, 0x399]),
     (0x1FF6, [0x3A9, 0x342]), (0x1FF7, [0x3A9, 0x342, 0x399]), (0x1FFC, [0x3A9, 0x399]),
     (0xFB00, [0x46, 0x46]), (0xFB01, [0x46, 0x49]), (0xFB02, [0x46, 0x4C]),
     (0xFB03, [0x46, 0x46, 0x49]), (0xFB04, [0x46, 0x46, 0x4C]), (0xFB05, [0x53, 0x54]),
     (0xFB06, [0x53, 0x54]), (0xFB13, [0x544, 0x546]), (0xFB14, [0x544, 0x535]),
     (0xFB15, [0x544, 0x53B]), (0xFB16, [0x54E, 0x546]), (0xFB17, [0x544, 0x53D])]"

fun lookup_special :: "int \<Rightarrow> (int \<times> str) list \<Rightarrow> str option" where
  "lookup_special c [] = None"
| "lookup_special c ((k, v) # rs) =
     (if c < k then None else if c = k then Some v else lookup_special c rs)"

definition to_upper_full :: "int \<Rightarrow> str" where
  "to_upper_full c =
     (case lookup_special c special_upper of
        Some v \<Rightarrow> v
      | None \<Rightarrow> [simple_case c upper_table])"

text \<open>
  The only code point whose lower-casing is more than one code point is U+0130, the
  capital I with a dot above, which becomes \<^verbatim>\<open>i\<close> followed by the combining dot U+0307.
\<close>

definition to_lower_full :: "int \<Rightarrow> str" where
  "to_lower_full c = (if c = 0x130 then [0x69, 0x307] else [simple_case c lower_table])"

text \<open>
  The lower-casing of the capital sigma U+03A3 depends on its context: it is the final
  sigma U+03C2 when a cased character comes before it, and none after it, case-ignorable
  characters being skipped on both sides, and the small sigma U+03C3 otherwise. The
  cased and the case-ignorable code points are kept as ranges \<open>(lo, hi)\<close> in increasing
  order.
\<close>

definition cased_ranges :: "(int \<times> int) list" where
  "cased_ranges = [
     (0x41, 0x5A), (0x61, 0x7A), (0xAA, 0xAA), (0xB5, 0xB5), (0xBA, 0xBA),
     (0xC0, 0xD6), (0xD8, 0xF6), (0xF8, 0x1BA), (0x1BC, 0x1BF), (0x1C4, 0x293),
     (0x295, 0x2B8), (0x2C0, 0x2C1), (0x2E0, 0x2E4), (0x345, 0x345), (0x370, 0x373),
     (0x376, 0x377), (0x37A, 0x37D), (0x37F, 0x37F), (0x386, 0x386), (0x388, 0x38A),
     (0x38C, 0x38C), (0x38E, 0x3A1), (0x3A3, 0x3F5), (0x3F7, 0x481), (0x48A, 0x52F),
     (0x531, 0x556), (0x560, 0x588), (0x10A0, 0x10C5), (0x10C7, 0x10C7), (0x10CD, 0x10CD),
     (0x10D0, 0x10FA), (0x10FD, 0x10FF), (0x13A0, 0x13F5), (0x13F8, 0x13FD), (0x1C80, 0x1C88),
     (0x1C90, 0x1CBA), (0x1CBD, 0x1CBF), (0x1D00, 0x1DBF), (0x1E00, 0x1F15), (0x1F18, 0x1F1D),
     (0x1F20, 0x1F45), (0x1F48, 0x1F4D), (0x1F50, 0x1F57), (0x1F59, 0x1F59), (0x1F5B, 0x1F5B),
     (0x1F5D, 0x1F5D), (0x1F5F, 0x1F7D), (0x1F80, 0x1FB4), (0x1FB6, 0x1FBC), (0x1FBE, 0x1FBE),
     (0x1FC2, 0x1FC4), (0x1FC6, 0x1FCC), (0x1FD0, 0x1FD3), (0x1FD6, 0x1FDB), (0x1FE0, 0x1FEC),
     (0x1FF2, 0x1FF4), (0x1FF6, 0x1FFC), (0x2071, 0x2071), (0x207F, 0x207F), (0x2090, 0x209C),
     (0x2102, 0x2102), (0x2107, 0x2107), (0x210A, 0x2113), (0x2115, 0x2115), (0x2119, 0x211D),
     (0x2124, 0x2124), (0x2126, 0x2126), (0x2128, 0x2128), (0x212A, 0x212D), (0x212F, 0x2134),
     (0x2139, 0x2139), (0x213C, 0x213F), (0x2145, 0x2149), (0x214E, 0x214E), (0x2160, 0x217F),
     (0x2183, 0x2184), (0x24B6, 0x24E9), (0x2C00, 0x2CE4), (0x2CEB, 0x2CEE), (0x2CF2, 0x2CF3),
     (0x2D00, 0x2D25), (0x2D27, 0x2D27), (0x2D2D, 0x2D2D), (0xA640, 0xA66D), (0xA680, 0xA69D),
     (0xA722, 0xA787), (0xA78B, 0xA78E), (0xA790, 0xA7CA), (0xA7D0, 0xA7D1), (0xA7D3, 0xA7D3),
     (0xA7D5, 0xA7D9), (0xA7F5, 0xA7F6), (0xA7F8, 0xA7FA), (0xAB30, 0xAB5A), (0xAB5C, 0xAB68),
     (0xAB70, 0xABBF), (0xFB00, 0xFB06), (0xFB13, 0xFB17), (0xFF21, 0xFF3A), (0xFF41, 0xFF5A),
     (0x10400, 0x1044F), (0x104B0, 0x104D3), (0x104D8, 0x104FB), (0x10570, 0x1057A), (0x1057C, 0x1058A),
     (0x1058C, 0x10592), (0x10594, 0x10595), (0x10597, 0x105A1), (0x105A3, 0x105B1), (0x105B3, 0x105B9),
     (0x105BB, 0x105BC), (0x10780, 0x10780), (0x10783, 0x10785), (0x10787, 0x107B0), (0x107B2, 0x107BA),
     (0x10C80, 0x10CB2), (0x10CC0, 0x10CF2), (0x118A0, 0x118DF), (0x16E40, 0x16E7F), (0x1D400, 0x1D454),
     (0x1D456, 0x1D49C), (0x1D49E, 0x1D49F), (0x1D4A2, 0x1D4A2), (0x1D4A5, 0x1D4A6), (0x1D4A9, 0x1D4AC),
     (0x1D4AE, 0x1D4B9), (0x1D4BB, 0x1D4BB), (0x1D4BD, 0x1D4C3), (0x1D4C5, 0x1D505), (0x1D507, 0x1D50A),
     (0x1D50D, 0x1D514), (0x1D516, 0x1D51C), (0x1D51E, 0x1D539), (0x1D53B, 0x1D53E), (0x1D540, 0x1D544),
     (0x1D546, 0x1D546), (0x1D54A, 0x1D550), (0x1D552, 0x1D6A5), (0x1D6A8, 0x1D6C0), (0x1D6C2, 0x1D6DA),
     (0x1D6DC, 0x1D6FA), (0x1D6FC, 0x1D714), (0x1D716, 0x1D734), (0x1D736, 0x1D74E), (0x1D750, 0x1D76E),
     (0x1D770, 0x1D788), (0x1D78A, 0x1D7A8), (0x1D7AA, 0x1D7C2), (0x1D7C4, 0x1D7CB), (0x1DF00, 0x1DF09),
     (0x1DF0B, 0x1DF1E), (0x1E900, 0x1E943), (0x1F130, 0x1F149), (0x1F150, 0x1F169), (0x1F170, 0x1F189)]"

definition case_ignorable_ranges :: "(int \<times> int) list" where
  "case_ignorable_ranges = [
     (0x27, 0x27), (0x2E, 0x2E), (0x3A, 0x3A), (0x5E, 0x5E), (0x60, 0x60),
     (0xA8, 0xA8), (0xAD, 0xAD), (0xAF, 0xAF), (0xB4, 0xB4), (0xB7, 0xB8),
     (0x2B0, 0x36F), (0x374, 0x375), (0x37A, 0x37A), (0x384, 0x385), (0x387, 0x387),
     (0x483, 0x489), (0x559, 0x559), (0x55F, 0x55F), (0x591, 0x5BD), (0x5BF, 0x5BF),
     (0x5C1, 0x5C2), (0x5C4, 0x5C5), (0x5C7, 0x5C7), (0x5F4, 0x5F4), (0x600, 0x605),
     (0x610, 0x61A), (0x61C, 0x61C), (0x640, 0x640), (0x64B, 0x65F), (0x670, 0x670),
     (0x6D6, 0x6DD), (0x6DF, 0x6E8), (0x6EA, 0x6ED), (0x70F, 0x70F), (0x711, 0x711),
     (0x730, 0x74A), (0x7A6, 0x7B0), (0x7EB, 0x7F5), (0x7FA, 0x7FA), (0x7FD, 0x7FD),
     (0x816, 0x82D), (0x859, 0x85B), (0x888, 0x888), (0x890, 0x891), (0x898, 0x89F),
     (0x8C9, 0x902), (0x93A, 0x93A), (0x93C, 0x93C), (0x941, 0x948), (0x94D, 0x94D),
     (0x951, 0x957), (0x962, 0x963), (0x971, 0x971), (0x981, 0x981), (0x9BC, 0x9BC),
     (0x9C1, 0x9C4), (0x9CD, 0x9CD), (0x9E2, 0x9E3), (0x9FE, 0x9FE), (0xA01, 0xA02),
     (0xA3C, 0xA3C), (0xA41, 0xA42), (0xA47, 0xA48), (0xA4B, 0xA4D), (0xA51, 0xA51),
     (0xA70, 0xA71), (0xA75, 0xA75), (0xA81, 0xA82), (0xABC, 0xABC), (0xAC1, 0xAC5),
     (0xAC7, 0xAC8), (0xACD, 0xACD), (0xAE2, 0xAE3), (0xAFA, 0xAFF), (0xB01, 0xB01),
     (0xB3C, 0xB3C), (0xB3F, 0xB3F), (0xB41, 0xB44), (0xB4D, 0xB4D), (0xB55, 0xB56),
     (0xB62, 0xB63), (0xB82, 0xB82), (0xBC0, 0xBC0), (0xBCD, 0xBCD), (0xC00, 0xC00),
     (0xC04, 0xC04), (0xC3C, 0xC3C), (0xC3E, 0xC40), (0xC46, 0xC48), (0xC4A, 0xC4D),
     (0xC55, 0xC56), (0xC62, 0xC63), (0xC81, 0xC81), (0xCBC, 0xCBC), (0xCBF, 0xCBF),
     (0xCC6, 0xCC6), (0xCCC, 0xCCD), (0xCE2, 0xCE3), (0xD00, 0xD01), (0xD3B, 0xD3C),
     (0xD41, 0xD44), (0xD4D, 0xD4D), (0xD62, 0xD63), (0xD81, 0xD81), (0xDCA, 0xDCA),
     (0xDD2, 0xDD4), (0xDD6, 0xDD6), (0xE31, 0xE31), (0xE34, 0xE3A), (0xE46, 0xE4E),
     (0xEB1, 0xEB1), (0xEB4, 0xEBC), (0xEC6, 0xEC6), (0xEC8, 0xECD), (0xF18, 0xF19),
     (0xF35, 0xF35), (0xF37, 0xF37), (0xF39, 0xF39), (0xF71, 0xF7E), (0xF80, 0xF84),
     (0xF86, 0xF87), (0xF8D, 0xF97), (0xF99, 0xFBC), (0xFC6, 0xFC6), (0x102D, 0x1030),
     (0x1032, 0x1037), (0x1039, 0x103A), (0x103D, 0x103E), (0x1058, 0x1059), (0x105E, 0x1060),
     (0x1071, 0x1074), (0x1082, 0x1082), (0x1085, 0x1086), (0x108D, 0x108D), (0x109D, 0x109D),
     (0x10FC, 0x10FC), (0x135D, 0x135F), (0x1712, 0x1714), (0x1732, 0x1733), (0x1752, 0x1753),
     (0x1772, 0x1773), (0x17B4, 0x17B5), (0x17B7, 0x17BD), (0x17C6, 0x17C6), (0x17C9, 0x17D3),
     (0x17D7, 0x17D7), (0x17DD, 0x17DD), (0x180B, 0x180F), (0x1843, 0x1843), (0x1885, 0x1886),
     (0x18A9, 0x18A9), (0x1920, 0x1922), (0x1927, 0x1928), (0x1932, 0x1932), (0x1939, 0x193B),
     (0x1A17, 0x1A18), (0x1A1B, 0x1A1B), (0x1A56, 0x1A56), (0x1A58, 0x1A5E), (0x1A60, 0x1A60),
     (0x1A62, 0x1A62), (0x1A65, 0x1A6C), (0x1A73, 0x1A7C), (0x1A7F, 0x1A7F), (0x1AA7, 0x1AA7),
     (0x1AB0, 0x1ACE), (0x1B00, 0x1B03), (0x1B34, 0x1B34), (0x1B36, 0x1B3A), (0x1B3C, 0x1B3C),
     (0x1B42, 0x1B42), (0x1B6B, 0x1B73), (0x1B80, 0x1B81), (0x1BA2, 0x1BA5), (0x1BA8, 0x1BA9),
     (0x1BAB, 0x1BAD), (0x1BE6, 0x1BE6), (0x1BE8, 0x1BE9), (0x1BED, 0x1BED), (0x1BEF, 0x1BF1),
     (0x1C2C, 0x1C33), (0x1C36, 0x1C37), (0x1C78, 0x1C7D), (0x1CD0, 0x1CD2), (0x1CD4, 0x1CE0),
     (0x1CE2, 0x1CE8), (0x1CED, 0x1CED), (0x1CF4, 0x1CF4), (0x1CF8, 0x1CF9), (0x1D2C, 0x1D6A),
     (0x1D78, 0x1D78), (0x1D9B, 0x1DFF), (0x1FBD, 0x1FBD), (0x1FBF, 0x1FC1), (0x1FCD, 0x1FCF),
     (0x1FDD, 0x1FDF), (0x1FED, 0x1FEF), (0x1FFD, 0x1FFE), (0x200B, 0x200F), (0x2018, 0x2019),
     (0x2024, 0x2024), (0x2027, 0x2027), (0x202A, 0x202E), (0x2060, 0x2064), (0x2066, 0x206F),
     (0x2071, 0x2071), (0x207F, 0x207F), (0x2090, 0x209C), (0x20D0, 0x20F0), (0x2C7C, 0x2C7D),
     (0x2CEF, 0x2CF1), (0x2D6F, 0x2D6F), (0x2D7F, 0x2D7F), (0x2DE0, 0x2DFF), (0x2E2F, 0x2E2F),
     (0x3005, 0x3005), (0x302A, 0x302D), (0x3031, 0x3035), (0x303B, 0x303B), (0x3099, 0x309E),
     (0x30FC, 0x30FE), (0xA015, 0xA015), (0xA4F8, 0xA4FD), (0xA60C, 0xA60C), (0xA66F, 0xA672),
     (0xA674, 0xA67D), (0xA67F, 0xA67F), (0xA69C, 0xA69F), (0xA6F0, 0xA6F1), (0xA700, 0xA721),
     (0xA770, 0xA770), (0xA788, 0xA78A), (0xA7F2, 0xA7F4), (0xA7F8, 0xA7F9), (0xA802, 0xA802),
     (0xA806, 0xA806), (0xA80B, 0xA80B), (0xA825, 0xA826), (0xA82C, 0xA82C), (0xA8C4, 0xA8C5),
     (0xA8E0, 0xA8F1), (0xA8FF, 0xA8FF), (0xA926, 0xA92D), (0xA947, 0xA951), (0xA980, 0xA982),
     (0xA9B3, 0xA9B3), (0xA9B6, 0xA9B9), (0xA9BC, 0xA9BD), (0xA9CF, 0xA9CF), (0xA9E5, 0xA9E6),
     (0xAA29, 0xAA2E), (0xAA31, 0xAA32), (0xAA35, 0xAA36), (0xAA43, 0xAA43), (0xAA4C, 0xAA4C),
     (0xAA70, 0xAA70), (0xAA7C, 0xAA7C), (0xAAB0, 0xAAB0), (0xAAB2, 0xAAB4), (0xAAB7, 0xAAB8),
     (0xAABE, 0xAABF), (0xAAC1, 0xAAC1), (0xAADD, 0xAADD), (0xAAEC, 0xAAED), (0xAAF3, 0xAAF4),
     (0xAAF6, 0xAAF6), (0xAB5B, 0xAB5F), (0xAB69, 0xAB6B), (0xABE5, 0xABE5), (0xABE8, 0xABE8),
     (0xABED, 0xABED), (0xFB1E, 0xFB1E), (0xFBB2, 0xFBC2), (0xFE00, 0xFE0F), (0xFE13, 0xFE13),
     (0xFE20, 0xFE2F), (0xFE52, 0xFE52), (0xFE55, 0xFE55), (0xFEFF, 0xFEFF), (0xFF07, 0xFF07),
     (0xFF0E, 0xFF0E), (0xFF1A, 0xFF1A), (0xFF3E, 0xFF3E), (0xFF40, 0xFF40), (0xFF70, 0xFF70),
     (0xFF9E, 0xFF9F), (0xFFE3, 0xFFE3), (0xFFF9, 0xFFFB), (0x101FD, 0x101FD), (0x102E0, 0x102E0),
     (0x10376, 0x1037A), (0x10780, 0x10785), (0x10787, 0x107B0), (0x107B2, 0x107BA), (0x10A01, 0x10A03),
     (0x10A05, 0x10A06), (0x10A0C, 0x10A0F), (0x10A38, 0x10A3A), (0x10A3F, 0x10A3F), (0x10AE5, 0x10AE6),
     (0x10D24, 0x10D27), (0x10EAB, 0x10EAC), (0x10F46, 0x10F50), (0x10F82, 0x10F85), (0x11001, 0x11001),
     (0x11038, 0x11046), (0x11070, 0x11070), (0x11073, 0x11074), (0x1107F, 0x11081), (0x110B3, 0x110B6),
     (0x110B9, 0x110BA), (0x110BD, 0x110BD), (0x110C2, 0x110C2), (0x110CD, 0x110CD), (0x11100, 0x11102),
     (0x11127, 0x1112B), (0x1112D, 0x11134), (0x11173, 0x11173), (0x11180, 0x11181), (0x111B6, 0x111BE),
     (0x111C9, 0x111CC), (0x111CF, 0x111CF), (0x1122F, 0x11231), (0x11234, 0x11234), (0x11236, 0x11237),
     (0x1123E, 0x1123E), (0x112DF, 0x112DF), (0x112E3, 0x112EA), (0x11300, 0x11301), (0x1133B, 0x1133C),
     (0x11340, 0x11340), (0x11366, 0x1136C), (0x11370, 0x11374), (0x11438, 0x1143F), (0x11442, 0x11444),
     (0x11446, 0x11446), (0x1145E, 0x1145E), (0x114B3, 0x114B8), (0x114BA, 0x114BA), (0x114BF, 0x114C0),
     (0x114C2, 0x114C3), (0x115B2, 0x115B5), (0x115BC, 0x115BD), (0x115BF, 0x115C0), (0x115DC, 0x115DD),
     (0x11633, 0x1163A), (0x1163D, 0x1163D), (0x1163F, 0x11640), (0x116AB, 0x116AB), (0x116AD, 0x116AD),
     (0x116B0, 0x116B5), (0x116B7, 0x116B7), (0x1171D, 0x1171F), (0x11722, 0x11725), (0x11727, 0x1172B),
     (0x1182F, 0x11837), (0x11839, 0x1183A), (0x1193B, 0x1193C), (0x1193E, 0x1193E), (0x11943, 0x11943),
     (0x119D4, 0x119D7), (0x119DA, 0x119DB), (0x119E0, 0x119E0), (0x11A01, 0x11A0A), (0x11A33, 0x11A38),
     (0x11A3B, 0x11A3E), (0x11A47, 0x11A47), (0x11A51, 0x11A56), (0x11A59, 0x11A5B), (0x11A8A, 0x11A96),
     (0x11A98, 0x11A99), (0x11C30, 0x11C36), (0x11C38, 0x11C3D), (0x11C3F, 0x11C3F), (0x11C92, 0x11CA7),
     (0x11CAA, 0x11CB0), (0x11CB2, 0x11CB3), (0x11CB5, 0x11CB6), (0x11D31, 0x11D36), (0x11D3A, 0x11D3A),
     (0x11D3C, 0x11D3D), (0x11D3F, 0x11D45), (0x11D47, 0x11D47), (0x11D90, 0x11D91), (0x11D95, 0x11D95),
     (0x11D97, 0x11D97), (0x11EF3, 0x11EF4), (0x13430, 0x13438), (0x16AF0, 0x16AF4), (0x16B30, 0x16B36),
     (0x16B40, 0x16B43), (0x16F4F, 0x16F4F), (0x16F8F, 0x16F9F), (0x16FE0, 0x16FE1), (0x16FE3, 0x16FE4),
     (0x1AFF0, 0x1AFF3), (0x1AFF5, 0x1AFFB), (0x1AFFD, 0x1AFFE), (0x1BC9D, 0x1BC9E), (0x1BCA0, 0x1BCA3),
     (0x1CF00, 0x1CF2D), (0x1CF30, 0x1CF46), (0x1D167, 0x1D169), (0x1D173, 0x1D182), (0x1D185, 0x1D18B),
     (0x1D1AA, 0x1D1AD), (0x1D242, 0x1D244), (0x1DA00, 0x1DA36), (0x1DA3B, 0x1DA6C), (0x1DA75, 0x1DA75),
     (0x1DA84, 0x1DA84), (0x1DA9B, 0x1DA9F), (0x1DAA1, 0x1DAAF), (0x1E000, 0x1E006), (0x1E008, 0x1E018),
     (0x1E01B, 0x1E021), (0x1E023, 0x1E024), (0x1E026, 0x1E02A), (0x1E130, 0x1E13D), (0x1E2AE, 0x1E2AE),
     (0x1E2EC, 0x1E2EF), (0x1E8D0, 0x1E8D6), (0x1E944, 0x1E94B), (0x1F3FB, 0x1F3FF), (0xE0001, 0xE0001),
     (0xE0020, 0xE007F), (0xE0100, 0xE01EF)]"

fun in_ranges :: "int \<Rightarrow> (int \<times> int) list \<Rightarrow> bool" where
  "in_ranges c [] = False"
| "in_ranges c ((lo, hi) # rs) = (if c < lo then False else c \<le> hi \<or> in_ranges c rs)"

definition final_sigma :: "str \<Rightarrow> str \<Rightarrow> bool" where
  "final_sigma passed ahead =
     (case dropWhile (\<lambda>c. in_ranges c case_ignorable_ranges) passed of
        [] \<Rightarrow> False
      | b # _ \<Rightarrow>
          in_ranges b cased_ranges \<and>
          (case dropWhile (\<lambda>c. in_ranges c case_ignorable_ranges) ahead of
             [] \<Rightarrow> True
           | a # _ \<Rightarrow> \<not> in_ranges a cased_ranges))"

text \<open>
  \<^verbatim>\<open>s.lower()\<close> goes through the string; \<open>passed\<close> holds the code points already
  passed, the nearest first.
\<close>

fun lower_from :: "str \<Rightarrow> str \<Rightarrow> str" where
  "lower_from passed [] = []"
| "lower_from passed (c # ahead) =
     (if c = 0x3A3 then [if final_sigma passed ahead then 0x3C2 else 0x3C3]
      else to_lower_full c) @ lower_from (c # passed) ahead"

definition py_lower :: "str \<Rightarrow> str" where
  "py_lower s = lower_from [] s"

definition py_upper :: "str \<Rightarrow> str" where
  "py_upper s = concat (map to_upper_full s)"

subsection \<open>Python's string operations\<close>

definition py_strip :: "str \<Rightarrow> str" where
  "py_strip s = rev (dropWhile isspace (rev (dropWhile isspace s)))"

text \<open>
  \<^verbatim>\<open>s.split()\<close> scans the string once: whitespace ends the current field, and an
  empty field is never emitted. \<open>cur\<close> is the field being read.
\<close>

fun split_ws :: "str \<Rightarrow> str \<Rightarrow> str list" where
  "split_ws cur [] = (if cur = [] then [] else [cur])"
| "split_ws cur (c # cs) =
     (if isspace c
      then (if cur = [] then split_ws [] cs else cur # split_ws [] cs)
      else split_ws (cur @ [c]) cs)"

definition py_split :: "str \<Rightarrow> str list" where
  "py_split s = split_ws [] s"

text \<open>\<^verbatim>\<open>s.replace(old, new)\<close> for a one-character \<open>old\<close>.\<close>

definition py_replace :: "str \<Rightarrow> int \<Rightarrow> str \<Rightarrow> str" where
  "py_replace s old new = concat (map (\<lambda>c. if c = old then new else [c]) s)"

fun py_join :: "str \<Rightarrow> str list \<Rightarrow> str" where
  "py_join sep [] = []"
| "py_join sep [x] = x"
| "py_join sep (x # y # ys) = x @ sep @ py_join sep (y # ys)"

fun startswith :: "'a list \<Rightarrow> 'a list \<Rightarrow> bool" where
  "startswith s [] = True"
| "startswith [] (p # ps) = False"
| "startswith (c # cs) (p # ps) = (c = p \<and> startswith cs ps)"

text \<open>\<^verbatim>\<open>sub in s\<close>.\<close>

fun py_in :: "'a list \<Rightarrow> 'a list \<Rightarrow> bool" where
  "py_in sub [] = (sub = [])"
| "py_in sub (c # cs) = (startswith (c # cs) sub \<or> py_in sub cs)"

text \<open>\<^verbatim>\<open>s.find(sub)\<close>: the lowest index at which \<open>sub\<close> starts, \<open>-1\<close> when there is none.\<close>

fun find_from :: "nat \<Rightarrow> 'a list \<Rightarrow> 'a list \<Rightarrow> int" where
  "find_from i [] sub = (if sub = [] then int i else - 1)"
| "find_from i (c # cs) sub =
     (if startswith (c # cs) sub then int i else find_from (Suc i) cs sub)"

definition py_find :: "'a list \<Rightarrow> 'a list \<Rightarrow> int" where
  "py_find s sub = find_from 0 s sub"

text \<open>The slice \<^verbatim>\<open>s[i:]\<close>; a negative \<open>i\<close> counts from the end.\<close>

definition slice_from :: "'a list \<Rightarrow> int \<Rightarrow> 'a list" where
  "slice_from s i =
     (if i < 0 then drop (nat (int (length s) + i)) s else drop (nat i) s)"

text \<open>\<^verbatim>\<open>xs[0]\<close> raises \<^verbatim>\<open>IndexError\<close> on the empty list.\<close>

definition index0 :: "'a list \<Rightarrow> exn + 'a" where
  "index0 xs = (case xs of [] \<Rightarrow> Inl IndexError | x # _ \<Rightarrow> Inr x)"

subsection \<open>The transaction resolver (\<^verbatim>\<open>telebirr.py\<close>)\<close>

definition label :: str where
  "label = (str_of ''Transaction Number'')"

text \<open>
  The body of the \<^verbatim>\<open>try\<close> block of \<^verbatim>\<open>extract_transaction_info\<close>: \<open>Inr (Some tx_id)\<close>
  is \<^verbatim>\<open>return tx_id\<close>, \<open>Inr None\<close> is falling out of the block.
\<close>

definition extract_try :: "str \<Rightarrow> str \<Rightarrow> exn + str option" where
  "extract_try text_data text_data_lower =
     (let start_index = py_find text_data_lower (py_lower label);
          end_of_label = start_index + int (length label);
          remainder = py_replace (py_strip (slice_from text_data end_of_label)) (cp CHR '':'') []
      in if remainder \<noteq> []
         then (case index0 (py_split remainder) of
                 Inl e \<Rightarrow> Inl e
               | Inr tok \<Rightarrow> Inr (Some (py_upper tok)))
         else Inr None)"

definition extract_transaction_info :: "str \<Rightarrow> exn + str option" where
  "extract_transaction_info text_data =
     (let text_data_lower = py_lower text_data
      in if py_in (py_lower label) text_data_lower
         then (case extract_try text_data text_data_lower of
                 Inl e \<Rightarrow> (if e = IndexError \<or> e = ValueError then Inr None else Inl e)
               | Inr (Some tx_id) \<Rightarrow> Inr (Some tx_id)
               | Inr None \<Rightarrow> Inr None)
         else Inr None)"

subsection \<open>The transaction resolver (\<^verbatim>\<open>bot.py\<close>)\<close>

text \<open>
  \<^verbatim>\<open>bot.py\<close> has its own copy of the resolver, which returns the triple
  \<^verbatim>\<open>(bank_name, tx_id, verify_url)\<close>, or three \<^verbatim>\<open>None\<close>s.
\<close>

definition bot_extract_try ::
  "str \<Rightarrow> str \<Rightarrow> exn + (str \<times> str \<times> str) option" where
  "bot_extract_try text_data text_data_lower =
     (let verify_url = (str_of ''https://transactioninfo.ethiotelecom.et/receipt/{}'');
          bank_name = (str_of ''Telebirr'');
          start_index = py_find text_data_lower (py_lower label);
          end_of_label = start_index + int (length label);
          remainder = py_replace (py_strip (slice_from text_data end_of_label)) (cp CHR '':'') []
      in if remainder \<noteq> []
         then (case index0 (py_split remainder) of
                 Inl e \<Rightarrow> Inl e
               | Inr tok \<Rightarrow> Inr (Some (bank_name, py_upper tok, verify_url)))
         else Inr None)"

definition bot_extract_transaction_info ::
  "str \<Rightarrow> exn + (str option \<times> str option \<times> str option)" where
  "bot_extract_transaction_info text_data =
     (let text_data_lower = py_lower text_data
      in if py_in (py_lower label) text_data_lower
         then (case bot_extract_try text_data text_data_lower of
                 Inl e \<Rightarrow> (if e = IndexError \<or> e = ValueError
                           then Inr (None, None, None) else Inl e)
               | Inr (Some (bank_name, tx_id, verify_url)) \<Rightarrow>
                   Inr (Some bank_name, Some tx_id, Some verify_url)
               | Inr None \<Rightarrow> Inr (None, None, None))
         else Inr (None, None, None))"

subsection \<open>The text extractor\<close>

text \<open>
  The OCR result is a document of pages, blocks, lines and words, as docTR returns it.
\<close>

record word =
  word_value :: str

record line =
  words :: "word list"

record block =
  lines :: "line list"

record page =
  blocks :: "block list"

record document =
  pages :: "page list"

definition TELEBIRR_VERIFICATION_URL :: str where
  "TELEBIRR_VERIFICATION_URL = (str_of ''https://transactioninfo.ethiotelecom.et/receipt/{}'')"

text \<open>
  The three nested \<^verbatim>\<open>for\<close> loops of \<^verbatim>\<open>process_image_for_txid\<close>, the same in both
  files: each line appends its words, joined by spaces, and a newline to \<^verbatim>\<open>full_text\<close>,
  which starts empty.
\<close>

definition linearize :: "document \<Rightarrow> str" where
  "linearize result =
     fold (\<lambda>page full_text.
       fold (\<lambda>block full_text.
         fold (\<lambda>line full_text.
                 full_text @ (py_join (str_of '' '') (map word_value (words line)) @ [0x0A]))
              (lines block) full_text)
            (blocks page) full_text)
          (pages result) []"

text \<open>
  The OCR backend is a parameter: \<open>ocr_model image_path\<close> is what
  \<^verbatim>\<open>ocr_model(DocumentFile.from_images([image_path]))\<close> does, either raising or returning
  a result, where \<open>None\<close> is a result that is false in a condition. \<open>process_try\<close> is
  the body of the \<^verbatim>\<open>try\<close> block of \<^verbatim>\<open>process_image_for_txid\<close> in \<^verbatim>\<open>telebirr.py\<close>, and
  \<^verbatim>\<open>except Exception\<close> catches every exception.
\<close>

type_synonym ocr_backend = "str \<Rightarrow> exn + document option"

definition process_try :: "ocr_backend \<Rightarrow> str \<Rightarrow> exn + (str option \<times> str option)" where
  "process_try ocr_model image_path =
     (case ocr_model image_path of
        Inl e \<Rightarrow> Inl e
      | Inr None \<Rightarrow> Inr (None, None)
      | Inr (Some result) \<Rightarrow>
          if pages result = [] then Inr (None, None)
          else let full_text = linearize result
               in if py_strip full_text = [] then Inr (None, None)
                  else (case extract_transaction_info full_text of
                          Inl e \<Rightarrow> Inl e
                        | Inr tx_id \<Rightarrow> Inr (tx_id, Some TELEBIRR_VERIFICATION_URL)))"

definition process_image_for_txid ::
  "ocr_backend \<Rightarrow> str \<Rightarrow> exn + (str option \<times> str option)" where
  "process_image_for_txid ocr_model image_path =
     (case process_try ocr_model image_path of
        Inl e \<Rightarrow> Inr (None, None)
      | Inr r \<Rightarrow> Inr r)"

text \<open>The same function in \<^verbatim>\<open>bot.py\<close>, with the three results of its resolver.\<close>

definition bot_process_try ::
  "ocr_backend \<Rightarrow> str \<Rightarrow> exn + (str option \<times> str option \<times> str option)" where
  "bot_process_try model image_path =
     (case model image_path of
        Inl e \<Rightarrow> Inl e
      | Inr None \<Rightarrow> Inr (None, None, None)
      | Inr (Some result) \<Rightarrow>
          if pages result = [] then Inr (None, None, None)
          else let full_text = linearize result
               in if py_strip full_text = [] then Inr (None, None, None)
                  else (case bot_extract_transaction_info full_text of
                          Inl e \<Rightarrow> Inl e
                        | Inr (bank_name, tx_id, verify_url) \<Rightarrow>
                            Inr (bank_name, tx_id, verify_url)))"

definition bot_process_image_for_txid ::
  "ocr_backend \<Rightarrow> str \<Rightarrow> exn + (str option \<times> str option \<times> str option)" where
  "bot_process_image_for_txid model image_path =
     (case bot_process_try model image_path of
        Inl e \<Rightarrow> Inr (None, None, None)
      | Inr r \<Rightarrow> Inr r)"

subsection \<open>Effects: requests, replies and files\<close>

text \<open>
  The world records what a run has done so far: the URLs requested with
  \<^verbatim>\<open>requests.get\<close>, in order, the messages delivered with \<^verbatim>\<open>reply_text\<close>, and the
  files on disk. A program takes the world and returns a value or an exception together
  with the new world.
\<close>

datatype message =
    Processing
  | Valid
  | ViewReceipt str
  | ValidAfterO0
  | ValidAfter0O
  | NotVerified
  | TransportError
  | NoTransactionId

record world =
  requests :: "str list"
  replies :: "message list"
  files :: "str set"

type_synonym 'a prog = "world \<Rightarrow> (exn + 'a) \<times> world"

definition ret :: "'a \<Rightarrow> 'a prog" where
  "ret x w = (Inr x, w)"

definition and_then :: "'a prog \<Rightarrow> ('a \<Rightarrow> 'b prog) \<Rightarrow> 'b prog" where
  "and_then m f w = (case m w of (Inl e, w') \<Rightarrow> (Inl e, w') | (Inr x, w') \<Rightarrow> f x w')"

text \<open>\<^verbatim>\<open>try: m except E: h\<close>, where \<open>caught\<close> tells the instances of \<^verbatim>\<open>E\<close>.\<close>

definition try_except :: "'a prog \<Rightarrow> (exn \<Rightarrow> bool) \<Rightarrow> 'a prog \<Rightarrow> 'a prog" where
  "try_except m caught h w =
     (case m w of
        (Inl e, w') \<Rightarrow> if caught e then h w' else (Inl e, w')
      | (Inr x, w') \<Rightarrow> (Inr x, w'))"

text \<open>
  The endpoint is a parameter: \<open>endpoint n url\<close> is what the request for
  \<open>url\<close> does when \<open>n\<close> requests have been made before it, so that it may answer
  differently from call to call. A request that raises has been made all the same.
\<close>

record response =
  status_code :: int
  resp_text :: str

type_synonym endpoint = "nat \<Rightarrow> str \<Rightarrow> exn + response"

definition requests_get :: "endpoint \<Rightarrow> str \<Rightarrow> response prog" where
  "requests_get endpoint url w =
     (endpoint (length (requests w)) url, w\<lparr>requests := requests w @ [url]\<rparr>)"

definition SUCCESS_STRING :: str where
  "SUCCESS_STRING =
     [0x12E8, 0x1274, 0x120C, 0x1265, 0x122D, 0x20, 0x12AD, 0x134D, 0x12EB, 0x20,
      0x1218, 0x1228, 0x1303] @ str_of ''/telebirr Transaction information''"

text \<open>
  \<^verbatim>\<open>template.format(arg)\<close> for a template with one replacement field \<^verbatim>\<open>{}\<close> and no
  other brace, as \<^verbatim>\<open>TELEBIRR_VERIFICATION_URL\<close> is.
\<close>

fun py_format :: "str \<Rightarrow> str \<Rightarrow> str" where
  "py_format [] arg = []"
| "py_format (c # cs) arg =
     (if c = (cp CHR ''{'') \<and> take 1 cs = (str_of ''}'') then arg @ drop 1 cs
      else c # py_format cs arg)"

subsection \<open>Verification (\<^verbatim>\<open>telebirr.py\<close>)\<close>

text \<open>
  The condition \<^verbatim>\<open>response.status_code == 200 and SUCCESS_STRING in response.text\<close>,
  written three times in \<^verbatim>\<open>verify_telebirr_receipt\<close>.
\<close>

definition is_success :: "response \<Rightarrow> bool" where
  "is_success response = (status_code response = 200 \<and> py_in SUCCESS_STRING (resp_text response))"

text \<open>
  The body of the \<^verbatim>\<open>try\<close> block of \<^verbatim>\<open>verify_telebirr_receipt\<close>. Each correction block
  yields \<open>Some b\<close> when it returns \<open>b\<close> from the function and \<open>None\<close> when control goes on
  to the next statement.
\<close>

definition verify_try :: "endpoint \<Rightarrow> str \<Rightarrow> str \<Rightarrow> bool prog" where
  "verify_try endpoint tx_id verify_url =
     (let full_url = py_format verify_url tx_id
      in and_then (requests_get endpoint full_url) (\<lambda>response.
           if is_success response then ret True
           else
             and_then
               (if py_in (str_of ''O'') tx_id
                then (let normalized_tx_id = py_replace tx_id (cp CHR ''O'') (str_of ''0'');
                          normalized_url = py_format verify_url normalized_tx_id
                      in and_then (requests_get endpoint normalized_url)
                           (\<lambda>normalized_response.
                              if is_success normalized_response then ret (Some True)
                              else ret None))
                else ret None)
               (\<lambda>returned. case returned of
                  Some b \<Rightarrow> ret b
                | None \<Rightarrow>
                    and_then
                      (if py_in (str_of ''0'') tx_id
                       then (let normalized_tx_id = py_replace tx_id (cp CHR ''0'') (str_of ''O'');
                                 normalized_url = py_format verify_url normalized_tx_id
                             in and_then (requests_get endpoint normalized_url)
                                  (\<lambda>normalized_response.
                                     if is_success normalized_response then ret (Some True)
                                     else ret None))
                       else ret None)
                      (\<lambda>returned. case returned of
                         Some b \<Rightarrow> ret b
                       | None \<Rightarrow> ret False))))"

definition verify_telebirr_receipt :: "endpoint \<Rightarrow> str \<Rightarrow> str \<Rightarrow> bool prog" where
  "verify_telebirr_receipt endpoint tx_id verify_url =
     try_except (verify_try endpoint tx_id verify_url)
       (\<lambda>e. e = RequestException) (ret False)"

subsection \<open>The photo handler (\<^verbatim>\<open>bot.py\<close>)\<close>

text \<open>
  The environment of a run of \<^verbatim>\<open>handle_photo\<close>: the verification endpoint, the OCR
  backend, and the Telegram client, where \<open>env_telegram env n\<close> tells whether the call
  of \<^verbatim>\<open>reply_text\<close> made after \<open>n\<close> delivered messages raises. The input is the file
  id of the photo, whose download to \<^verbatim>\<open>downloads/<file_id>.jpg\<close> creates the file.
  The messages of the bot are the constructors of \<open>message\<close>; \<open>ViewReceipt url\<close> is
  ``You can view the full receipt here: url''.
\<close>

record env =
  env_endpoint :: endpoint
  env_ocr :: ocr_backend
  env_telegram :: "nat \<Rightarrow> exn option"

definition reply_text :: "env \<Rightarrow> message \<Rightarrow> unit prog" where
  "reply_text env m w =
     (case env_telegram env (length (replies w)) of
        Some e \<Rightarrow> (Inl e, w)
      | None \<Rightarrow> (Inr (), w\<lparr>replies := replies w @ [m]\<rparr>))"

definition download_to_drive :: "str \<Rightarrow> unit prog" where
  "download_to_drive file_path w = (Inr (), w\<lparr>files := insert file_path (files w)\<rparr>)"

text \<open>\<^verbatim>\<open>if os.path.exists(file_path): os.remove(file_path)\<close>.\<close>

definition remove_if_exists :: "str \<Rightarrow> unit prog" where
  "remove_if_exists file_path w =
     (if file_path \<in> files w then (Inr (), w\<lparr>files := files w - {file_path}\<rparr>)
      else (Inr (), w))"

text \<open>
  The body of the \<^verbatim>\<open>try\<close> block of \<^verbatim>\<open>handle_photo\<close>. Its value tells whether the
  handler has returned (the two \<^verbatim>\<open>return\<close> statements of the correction blocks) or
  control goes on after the \<^verbatim>\<open>try\<close> statement. The marker \<^verbatim>\<open>success_string\<close> of
  \<^verbatim>\<open>bot.py\<close> is the same string as \<^verbatim>\<open>SUCCESS_STRING\<close>.
\<close>

definition handle_try :: "env \<Rightarrow> str \<Rightarrow> str \<Rightarrow> str \<Rightarrow> str \<Rightarrow> bool prog" where
  "handle_try env file_path tx_id verify_url full_url =
     and_then (requests_get (env_endpoint env) full_url) (\<lambda>response.
       if is_success response
       then and_then (reply_text env Valid) (\<lambda>_.
            and_then (reply_text env (ViewReceipt full_url)) (\<lambda>_. ret False))
       else
         and_then
           (if py_in (str_of ''O'') tx_id
            then (let normalized_tx_id = py_replace tx_id (cp CHR ''O'') (str_of ''0'');
                      normalized_url = py_format verify_url normalized_tx_id
                  in and_then (requests_get (env_endpoint env) normalized_url)
                       (\<lambda>normalized_response.
                          if is_success normalized_response
                          then and_then (reply_text env ValidAfterO0) (\<lambda>_.
                               and_then (reply_text env (ViewReceipt normalized_url)) (\<lambda>_.
                               and_then (remove_if_exists file_path) (\<lambda>_. ret True)))
                          else ret False))
            else ret False)
           (\<lambda>returned.
              if returned then ret True
              else
                and_then
                  (if py_in (str_of ''0'') tx_id
                   then (let normalized_tx_id = py_replace tx_id (cp CHR ''0'') (str_of ''O'');
                             normalized_url = py_format verify_url normalized_tx_id
                         in and_then (requests_get (env_endpoint env) normalized_url)
                              (\<lambda>normalized_response.
                                 if is_success normalized_response
                                 then and_then (reply_text env ValidAfter0O) (\<lambda>_.
                                      and_then (reply_text env (ViewReceipt normalized_url)) (\<lambda>_.
                                      and_then (remove_if_exists file_path) (\<lambda>_. ret True)))
                                 else ret False))
                   else ret False)
                  (\<lambda>returned.
                     if returned then ret True
                     else and_then (reply_text env NotVerified) (\<lambda>_. ret False))))"

text \<open>
  \<^verbatim>\<open>handle_photo\<close>: \<^verbatim>\<open>if tx_id and verify_url\<close> holds when both are strings and not
  empty. Only \<^verbatim>\<open>RequestException\<close> is caught; the final clean-up runs when the handler
  has not returned before.
\<close>

definition handle_photo :: "env \<Rightarrow> str \<Rightarrow> unit prog" where
  "handle_photo env file_id =
     (let file_path = (str_of ''downloads/'') @ file_id @ (str_of ''.jpg'')
      in and_then (download_to_drive file_path) (\<lambda>_.
         and_then (reply_text env Processing) (\<lambda>_.
         and_then (\<lambda>w. (bot_process_image_for_txid (env_ocr env) file_path, w))
           (\<lambda>(bank_name, tx_id, verify_url).
              and_then
                (case (tx_id, verify_url) of
                   (Some tx_id, Some verify_url) \<Rightarrow>
                     if tx_id \<noteq> [] \<and> verify_url \<noteq> []
                     then try_except
                            (handle_try env file_path tx_id verify_url
                               (py_format verify_url tx_id))
                            (\<lambda>e. e = RequestException)
                            (and_then (reply_text env TransportError) (\<lambda>_. ret False))
                     else and_then (reply_text env NoTransactionId) (\<lambda>_. ret False)
                 | _ \<Rightarrow> and_then (reply_text env NoTransactionId) (\<lambda>_. ret False))
                (\<lambda>returned. if returned then ret () else remove_if_exists file_path)))))"

subsection \<open>The candidate identifiers, as the specification describes them\<close>

text \<open>
  The definitions of this subsection follow the specification, not the code; the code is
  compared with them below. The specification describes verification as a loop over an
  ordered list of candidates (\<open>spec_candidates\<close>): the raw identifier; its variant with
  every \<open>O\<close> replaced by \<open>0\<close>, if it has an \<open>O\<close>; its variant with every \<open>0\<close> replaced
  by \<open>O\<close>, if it has a \<open>0\<close>. The loop (\<open>spec_try_candidates\<close>) requests the lookup URL
  of each candidate in turn, returns success at the first response that has status 200
  and contains the marker, stops at the first exception, and reports failure when the
  list is exhausted.
\<close>

definition lookup_url :: "str \<Rightarrow> str" where
  "lookup_url identifier = (str_of ''https://transactioninfo.ethiotelecom.et/receipt/'') @ identifier"

definition spec_candidates :: "str \<Rightarrow> str list" where
  "spec_candidates raw =
     [raw] @
     (if (cp CHR ''O'') \<in> set raw
      then [map (\<lambda>c. if c = (cp CHR ''O'') then (cp CHR ''0'') else c) raw] else []) @
     (if (cp CHR ''0'') \<in> set raw
      then [map (\<lambda>c. if c = (cp CHR ''0'') then (cp CHR ''O'') else c) raw] else [])"

fun spec_try_candidates :: "endpoint \<Rightarrow> str list \<Rightarrow> bool prog" where
  "spec_try_candidates endpoint [] w = (Inr False, w)"
| "spec_try_candidates endpoint (c # cs) w =
     (let w' = w\<lparr>requests := requests w @ [lookup_url c]\<rparr>
      in case endpoint (length (requests w)) (lookup_url c) of
           Inl e \<Rightarrow> (Inl e, w')
         | Inr r \<Rightarrow>
             if status_code r = 200 \<and> py_in SUCCESS_STRING (resp_text r)
             then (Inr True, w')
             else spec_try_candidates endpoint cs w')"

text \<open>
  What the endpoint does with the request for a candidate when \<open>n\<close> requests have been
  made before: it accepts it (status 200 and the marker in the body), rejects it, or the
  request raises.
\<close>

datatype outcome = Accepted | Rejected | Raised exn

definition attempt_outcome :: "endpoint \<Rightarrow> nat \<Rightarrow> str \<Rightarrow> outcome" where
  "attempt_outcome endpoint n identifier =
     (case endpoint n (lookup_url identifier) of
        Inl e \<Rightarrow> Raised e
      | Inr r \<Rightarrow>
          if status_code r = 200 \<and> py_in SUCCESS_STRING (resp_text r)
          then Accepted else Rejected)"

subsection \<open>Test endpoints\<close>

definition world0 :: world where
  "world0 = \<lparr>requests = [], replies = [], files = {}\<rparr>"


definition endpoint_rejects :: endpoint where
  "endpoint_rejects n url = Inr \<lparr>status_code = 404, resp_text = []\<rparr>"

definition endpoint_accepts :: endpoint where
  "endpoint_accepts n url = Inr \<lparr>status_code = 200, resp_text = SUCCESS_STRING\<rparr>"

text \<open>An endpoint that rejects the first request and accepts the second.\<close>

definition endpoint_second :: endpoint where
  "endpoint_second n url =
     (if n = 1 then Inr \<lparr>status_code = 200, resp_text = SUCCESS_STRING\<rparr>
      else Inr \<lparr>status_code = 404, resp_text = []\<rparr>)"

text \<open>
  An OCR backend that reads one line with the given words, a Telegram client that
  delivers every message, and one whose call after \<open>k\<close> delivered messages raises.
\<close>

definition ocr_reads :: "str list \<Rightarrow> ocr_backend" where
  "ocr_reads ws image_path =
     Inr (Some \<lparr>pages = [\<lparr>blocks = [\<lparr>lines = [\<lparr>words = map (\<lambda>v. \<lparr>word_value = v\<rparr>) ws\<rparr>]\<rparr>]\<rparr>]\<rparr>)"

definition telegram_ok :: "nat \<Rightarrow> exn option" where
  "telegram_ok n = None"

definition telegram_fails_at :: "nat \<Rightarrow> nat \<Rightarrow> exn option" where
  "telegram_fails_at k n = (if n = k then Some NetworkError else None)"

section \<open>Properties of the string operations\<close>

lemma cp_of_char [simp]: "cp c = of_char c"
  by (simp add: cp_def)

lemma str_of_Nil [simp]: "str_of [] = []"
  by (simp add: str_of_def)

lemma str_of_Cons [simp]: "str_of (c # cs) = of_char c # str_of cs"
  by (simp add: str_of_def)

lemma startswith_iff: "startswith s p \<longleftrightarrow> (\<exists>r. s = p @ r)"
  by (induction s p rule: startswith.induct) auto

lemma py_in_iff: "py_in sub s \<longleftrightarrow> (\<exists>pre post. s = pre @ sub @ post)"
proof (induction s)
  case Nil
  then show ?case by auto
next
  case (Cons c cs)
  show ?case
  proof
    assume "py_in sub (c # cs)"
    then consider "startswith (c # cs) sub" | "py_in sub cs" by auto
    then show "\<exists>pre post. c # cs = pre @ sub @ post"
    proof cases
      case 1
      then obtain r where "c # cs = sub @ r" by (auto simp: startswith_iff)
      then have "c # cs = [] @ sub @ r" by simp
      then show ?thesis by blast
    next
      case 2
      then obtain pre post where "cs = pre @ sub @ post" using Cons.IH by auto
      then have "c # cs = (c # pre) @ sub @ post" by simp
      then show ?thesis by blast
    qed
  next
    assume "\<exists>pre post. c # cs = pre @ sub @ post"
    then obtain pre post where e: "c # cs = pre @ sub @ post" by auto
    show "py_in sub (c # cs)"
    proof (cases pre)
      case Nil
      then have "startswith (c # cs) sub" using e unfolding startswith_iff by auto
      then show ?thesis by simp
    next
      case (Cons a pre')
      then have "cs = pre' @ sub @ post" using e by simp
      then show ?thesis using Cons.IH by auto
    qed
  qed
qed

lemma find_from_first:
  "s = pre @ sub @ post \<Longrightarrow>
   (\<And>p q. s = p @ sub @ q \<Longrightarrow> length pre \<le> length p) \<Longrightarrow>
   find_from i s sub = int (i + length pre)"
proof (induction s arbitrary: i pre)
  case Nil
  then show ?case by auto
next
  case (Cons c cs)
  show ?case
  proof (cases "startswith (c # cs) sub")
    case True
    then obtain r where "c # cs = [] @ sub @ r" by (auto simp: startswith_iff)
    then have "length pre \<le> length ([]::'a list)" using Cons.prems(2) by blast
    then show ?thesis using True by simp
  next
    case False
    then have "pre \<noteq> []" using Cons.prems(1) by (auto simp: startswith_iff)
    then obtain a pre' where pre: "pre = a # pre'" by (cases pre) auto
    then have cs: "cs = pre' @ sub @ post" using Cons.prems(1) by simp
    have least: "length pre' \<le> length p" if "cs = p @ sub @ q" for p q
    proof -
      have "c # cs = (c # p) @ sub @ q" using that by simp
      then have "length pre \<le> length (c # p)" using Cons.prems(2) by blast
      then show ?thesis using pre by simp
    qed
    have "find_from (Suc i) cs sub = int (Suc i + length pre')"
      by (rule Cons.IH[OF cs]) (rule least)
    then show ?thesis using False pre by simp
  qed
qed

lemma find_from_least:
  "py_in sub s \<Longrightarrow>
   \<exists>pre post. s = pre @ sub @ post \<and> find_from i s sub = int (i + length pre) \<and>
     (\<forall>p q. s = p @ sub @ q \<longrightarrow> length pre \<le> length p)"
proof (induction s arbitrary: i)
  case Nil
  then show ?case by auto
next
  case (Cons c cs)
  show ?case
  proof (cases "startswith (c # cs) sub")
    case True
    then obtain r where "c # cs = [] @ sub @ r" by (auto simp: startswith_iff)
    moreover have "find_from i (c # cs) sub = int (i + length ([]::'a list))"
      using True by simp
    ultimately show ?thesis by (metis list.size(3) le0)
  next
    case False
    then have "py_in sub cs" using Cons.prems by simp
    from Cons.IH[OF this, of "Suc i"] obtain pre post where
      cs: "cs = pre @ sub @ post" and f: "find_from (Suc i) cs sub = int (Suc i + length pre)"
      and least: "\<forall>p q. cs = p @ sub @ q \<longrightarrow> length pre \<le> length p" by blast
    have 1: "c # cs = (c # pre) @ sub @ post" using cs by simp
    have 2: "find_from i (c # cs) sub = int (i + length (c # pre))" using False f by simp
    have 3: "length (c # pre) \<le> length p" if "c # cs = p @ sub @ q" for p q
    proof (cases p)
      case Nil
      then have "startswith (c # cs) sub" using that unfolding startswith_iff by auto
      then show ?thesis using False by simp
    next
      case (Cons a p')
      then have "cs = p' @ sub @ q" using that by simp
      then show ?thesis using least Cons by auto
    qed
    show ?thesis using 1 2 3 by blast
  qed
qed

lemma split_ws_tokens:
  "\<forall>c \<in> set cur. \<not> isspace c \<Longrightarrow> tok \<in> set (split_ws cur s) \<Longrightarrow>
   tok \<noteq> [] \<and> set tok \<subseteq> set cur \<union> set s \<and> (\<forall>c \<in> set tok. \<not> isspace c)"
proof (induction s arbitrary: cur)
  case Nil
  then show ?case by (auto split: if_splits)
next
  case (Cons c cs)
  show ?case
  proof (cases "isspace c")
    case True
    then have "tok = cur \<and> cur \<noteq> [] \<or> tok \<in> set (split_ws [] cs)"
      using Cons.prems(2) by (auto split: if_splits)
    then show ?thesis
    proof
      assume "tok = cur \<and> cur \<noteq> []"
      then show ?thesis using Cons.prems(1) by auto
    next
      assume "tok \<in> set (split_ws [] cs)"
      then have "tok \<noteq> [] \<and> set tok \<subseteq> set [] \<union> set cs \<and> (\<forall>c \<in> set tok. \<not> isspace c)"
        by (intro Cons.IH) auto
      then show ?thesis by auto
    qed
  next
    case False
    then have "tok \<in> set (split_ws (cur @ [c]) cs)" using Cons.prems(2) by simp
    moreover have "\<forall>d \<in> set (cur @ [c]). \<not> isspace d" using False Cons.prems(1) by auto
    ultimately have "tok \<noteq> [] \<and> set tok \<subseteq> set (cur @ [c]) \<union> set cs \<and> (\<forall>c \<in> set tok. \<not> isspace c)"
      by (intro Cons.IH)
    then show ?thesis by auto
  qed
qed

lemma split_ws_blank:
  "\<forall>c \<in> set s. isspace c \<Longrightarrow> split_ws [] s = []"
  by (induction s) auto

lemma set_py_strip: "set (py_strip s) \<subseteq> set s"
  unfolding py_strip_def by (metis set_rev set_dropWhileD subsetI)

lemma set_py_replace_nil: "set (py_replace s c []) = set s - {c}"
  by (induction s) (auto simp: py_replace_def)

lemma extract_never_raises: "\<exists>r. extract_transaction_info t = Inr r"
  by (auto simp: extract_transaction_info_def extract_try_def index0_def Let_def
      split: list.splits sum.splits option.splits)

lemma py_split_tokens:
  assumes "tok \<in> set (py_split s)"
  shows "tok \<noteq> [] \<and> set tok \<subseteq> set s \<and> (\<forall>c \<in> set tok. \<not> isspace c)"
  using split_ws_tokens[of "[]" tok s] assms by (simp add: py_split_def)

lemma py_split_blank:
  assumes "\<forall>c \<in> set s. c = (cp CHR '':'') \<or> isspace c"
  shows "py_split (py_replace (py_strip s) (cp CHR '':'') []) = []"
proof -
  have "\<forall>c \<in> set (py_replace (py_strip s) (cp CHR '':'') []). isspace c"
    using assms set_py_strip[of s] by (auto simp: set_py_replace_nil)
  then show ?thesis unfolding py_split_def by (rule split_ws_blank)
qed

lemma length_lower_from: "length s \<le> length (lower_from passed s)"
proof (induction s arbitrary: passed)
  case Nil
  then show ?case by simp
next
  case (Cons c s)
  have "1 \<le> length (if c = 0x3A3 then [if final_sigma passed s then 0x3C2 else 0x3C3]
      else to_lower_full c)"
    by (simp add: to_lower_full_def)
  then show ?case using Cons.IH[of "c # passed"] by simp
qed

lemma length_py_lower: "length s \<le> length (py_lower s)"
  unfolding py_lower_def by (rule length_lower_from)

lemma special_upper_nonempty: "list_all (\<lambda>(k, v). v \<noteq> []) special_upper"
  by code_simp

lemma lookup_special_in: "lookup_special c rs = Some v \<Longrightarrow> (c, v) \<in> set rs"
  by (induction rs) (auto split: if_splits)

lemma to_upper_full_nonempty: "to_upper_full c \<noteq> []"
proof (cases "lookup_special c special_upper")
  case None
  then show ?thesis by (simp add: to_upper_full_def)
next
  case (Some v)
  then have "(c, v) \<in> set special_upper" by (rule lookup_special_in)
  then have "v \<noteq> []" using special_upper_nonempty by (auto simp: list_all_iff)
  then show ?thesis using Some by (simp add: to_upper_full_def)
qed

lemma py_upper_nonempty: "s \<noteq> [] \<Longrightarrow> py_upper s \<noteq> []"
  by (cases s) (simp_all add: py_upper_def to_upper_full_nonempty)

text \<open>
  What the resolver does when the lower-cased text contains the lower-cased label: with
  \<open>p\<close> the part of the lower-cased text before the first occurrence, the remainder is
  the original text from index \<open>length p + length label\<close> on.
\<close>

lemma extract_found:
  assumes "py_in (py_lower label) (py_lower text_data)"
  shows "\<exists>p q. py_lower text_data = p @ py_lower label @ q \<and>
           (\<forall>p' q'. py_lower text_data = p' @ py_lower label @ q' \<longrightarrow> length p \<le> length p') \<and>
           extract_transaction_info text_data =
             (case py_split (py_replace (py_strip
                     (drop (length p + length label) text_data)) (cp CHR '':'') []) of
                [] \<Rightarrow> Inr None
              | tok # toks \<Rightarrow> Inr (Some (py_upper tok)))"
proof -
  from find_from_least[OF assms, of 0] obtain p q where
    dec: "py_lower text_data = p @ py_lower label @ q"
    and f: "find_from 0 (py_lower text_data) (py_lower label) = int (0 + length p)"
    and least: "\<forall>p' q'. py_lower text_data = p' @ py_lower label @ q' \<longrightarrow>
       length p \<le> length p'"
    by blast
  have slice: "slice_from text_data
      (py_find (py_lower text_data) (py_lower label) + int (length label)) =
      drop (length p + length label) text_data"
    using f by (simp add: py_find_def slice_from_def nat_add_distrib)
  have empty: "py_split [] = []" by (simp add: py_split_def)
  have "extract_transaction_info text_data =
             (case py_split (py_replace (py_strip
                     (drop (length p + length label) text_data)) (cp CHR '':'') []) of
                [] \<Rightarrow> Inr None
              | tok # toks \<Rightarrow> Inr (Some (py_upper tok)))"
    using assms empty unfolding extract_transaction_info_def extract_try_def Let_def slice
    by (auto simp: index0_def split: list.splits)
  then show ?thesis using dec least by blast
qed

lemma bot_extract_try_eq:
  "bot_extract_try text_data text_data_lower =
     (case extract_try text_data text_data_lower of
        Inl e \<Rightarrow> Inl e
      | Inr None \<Rightarrow> Inr None
      | Inr (Some tx_id) \<Rightarrow>
          Inr (Some ((str_of ''Telebirr''), tx_id,
               (str_of ''https://transactioninfo.ethiotelecom.et/receipt/{}''))))"
  unfolding bot_extract_try_def extract_try_def Let_def
  by (simp split: sum.splits)

lemma bot_extract_eq:
  "bot_extract_transaction_info text_data =
     (case extract_transaction_info text_data of
        Inl e \<Rightarrow> Inl e
      | Inr None \<Rightarrow> Inr (None, None, None)
      | Inr (Some tx_id) \<Rightarrow>
          Inr (Some (str_of ''Telebirr''), Some tx_id,
               Some (str_of ''https://transactioninfo.ethiotelecom.et/receipt/{}'')))"
  unfolding bot_extract_transaction_info_def extract_transaction_info_def Let_def
    bot_extract_try_eq
  by (simp split: sum.splits option.splits)

lemma extract_absent:
  assumes "\<nexists>p q. py_lower text_data = p @ py_lower label @ q"
  shows "extract_transaction_info text_data = Inr None"
proof -
  have "\<not> py_in (py_lower label) (py_lower text_data)"
    using assms unfolding py_in_iff .
  then show ?thesis
    by (simp add: extract_transaction_info_def)
qed

lemma bot_extract_never_raises: "\<exists>r. bot_extract_transaction_info t = Inr r"
proof -
  obtain r where "extract_transaction_info t = Inr r"
    using extract_never_raises by blast
  then show ?thesis
    unfolding bot_extract_eq by (cases r) simp_all
qed

lemma py_lower_label: "py_lower label = str_of ''transaction number''"
  by code_simp

lemma length_lower_label: "length (py_lower label) = length label"
  unfolding py_lower_label by (simp add: label_def str_of_def)

text \<open>
  When the label stands in the text at the index at which the lower-cased label first
  occurs in the lower-cased text, the resolver returns the first token of what follows
  the label.
\<close>

lemma extract_aligned:
  assumes t: "text_data = pre @ lab @ rest"
    and len: "length lab = length label"
    and dec: "py_lower text_data = p @ py_lower label @ q"
    and aligned: "length p = length pre"
    and first: "\<forall>p' q'. py_lower text_data = p' @ py_lower label @ q' \<longrightarrow>
       length p \<le> length p'"
  shows "extract_transaction_info text_data =
           (case py_split (py_replace (py_strip rest) (cp CHR '':'') []) of
              [] \<Rightarrow> Inr None
            | tok # toks \<Rightarrow> Inr (Some (py_upper tok)))"
proof -
  have "py_in (py_lower label) (py_lower text_data)"
    unfolding py_in_iff using dec by blast
  from extract_found[OF this] obtain p0 q0 where
    dec0: "py_lower text_data = p0 @ py_lower label @ q0"
    and least0: "\<forall>p' q'. py_lower text_data = p' @ py_lower label @ q' \<longrightarrow>
       length p0 \<le> length p'"
    and res: "extract_transaction_info text_data =
             (case py_split (py_replace (py_strip
                     (drop (length p0 + length label) text_data)) (cp CHR '':'') []) of
                [] \<Rightarrow> Inr None
              | tok # toks \<Rightarrow> Inr (Some (py_upper tok)))"
    by blast
  have "length p0 \<le> length p" using least0 dec by blast
  moreover have "length p \<le> length p0" using first dec0 by blast
  ultimately have "length p0 = length pre" using aligned by simp
  then have "drop (length p0 + length label) text_data = rest"
    using t len by simp
  then show ?thesis using res by simp
qed

section \<open>The claims about the resolver\<close>

text \<open>
  C1. The claim fails on the code. The resolver finds the label in the lower-cased text
  and cuts the original text at the index found there, but lower-casing turns each
  U+0130 into two code points, so that after two of them the cut falls two code points
  behind the end of the label. In the text below the label is followed by \<^verbatim>\<open>:AB12\<close>,
  whose token is \<^verbatim>\<open>AB12\<close>, and both resolvers return \<^verbatim>\<open>B12\<close>.
\<close>

theorem resolve_cuts_behind_label:
  "[0x130, 0x130] @ str_of '' Transaction Number:AB12'' =
     [0x130, 0x130, 0x20] @ str_of ''Transaction Number'' @ str_of '':AB12'' \<and>
   py_lower ([0x130, 0x130] @ str_of '' Transaction Number:AB12'') =
     [0x69, 0x307, 0x69, 0x307, 0x20] @ str_of ''transaction number'' @ str_of '':ab12'' \<and>
   py_split (py_replace (py_strip (str_of '':AB12'')) (cp CHR '':'') []) = [str_of ''AB12''] \<and>
   extract_transaction_info ([0x130, 0x130] @ str_of '' Transaction Number:AB12'') =
     Inr (Some (str_of ''B12'')) \<and>
   bot_extract_transaction_info ([0x130, 0x130] @ str_of '' Transaction Number:AB12'') =
     Inr (Some (str_of ''Telebirr''), Some (str_of ''B12''),
          Some (str_of ''https://transactioninfo.ethiotelecom.et/receipt/{}''))"
  by code_simp

text \<open>
  C9. Neither resolver raises, whatever the text. In particular, when the text is
  \<open>pre @ lab @ rest\<close> with \<open>lab\<close> the first occurrence of the label and \<open>rest\<close> made of
  colons and whitespace only, the \<^verbatim>\<open>IndexError\<close> of taking the first token is caught and
  the result is not-found.
\<close>

theorem resolve_total:
  "(\<exists>r. extract_transaction_info text_data = Inr r) \<and>
   (\<exists>r. bot_extract_transaction_info text_data = Inr r) \<and>
   (text_data = pre @ lab @ rest \<and> py_lower lab = py_lower label \<and>
    (\<forall>p q. py_lower text_data = p @ py_lower label @ q \<longrightarrow> length pre \<le> length p) \<and>
    (\<forall>c \<in> set rest. c = cp CHR '':'' \<or> isspace c)
    \<longrightarrow> extract_transaction_info text_data = Inr None \<and>
        bot_extract_transaction_info text_data = Inr (None, None, None))"
proof (intro conjI impI)
  show "\<exists>r. extract_transaction_info text_data = Inr r"
    by (rule extract_never_raises)
  show "\<exists>r. bot_extract_transaction_info text_data = Inr r"
    by (rule bot_extract_never_raises)
next
  assume h: "text_data = pre @ lab @ rest \<and> py_lower lab = py_lower label \<and>
    (\<forall>p q. py_lower text_data = p @ py_lower label @ q \<longrightarrow> length pre \<le> length p) \<and>
    (\<forall>c \<in> set rest. c = cp CHR '':'' \<or> isspace c)"
  have t: "text_data = pre @ lab @ rest"
    and lab: "py_lower lab = py_lower label"
    and first: "\<forall>p q. py_lower text_data = p @ py_lower label @ q \<longrightarrow> length pre \<le> length p"
    and blank: "\<forall>c \<in> set rest. c = cp CHR '':'' \<or> isspace c"
    using h by simp_all
  show none: "extract_transaction_info text_data = Inr None"
  proof (cases "py_in (py_lower label) (py_lower text_data)")
    case False
    then show ?thesis by (simp add: extract_transaction_info_def)
  next
    case True
    from extract_found[OF True] obtain p q where
      dec: "py_lower text_data = p @ py_lower label @ q"
      and res: "extract_transaction_info text_data =
             (case py_split (py_replace (py_strip
                     (drop (length p + length label) text_data)) (cp CHR '':'') []) of
                [] \<Rightarrow> Inr None
              | tok # toks \<Rightarrow> Inr (Some (py_upper tok)))"
      by blast
    have "length pre \<le> length p" using first dec by blast
    moreover have "length lab \<le> length label"
      using length_py_lower[of lab] unfolding lab length_lower_label .
    ultimately have "length pre + length lab \<le> length p + length label" by simp
    then have "drop (length p + length label) text_data =
        drop (length p + length label - (length pre + length lab)) rest"
      unfolding t by simp
    then have "set (drop (length p + length label) text_data) \<subseteq> set rest"
      by (simp add: set_drop_subset)
    then have "\<forall>c \<in> set (drop (length p + length label) text_data).
        c = cp CHR '':'' \<or> isspace c"
      using blank by blast
    then have "py_split (py_replace (py_strip
        (drop (length p + length label) text_data)) (cp CHR '':'') []) = []"
      by (rule py_split_blank)
    then show ?thesis using res by simp
  qed
  show "bot_extract_transaction_info text_data = Inr (None, None, None)"
    unfolding bot_extract_eq none by simp
qed

theorem resolve_total_witness:
  "py_replace (py_strip (str_of '' : :: '')) (cp CHR '':'') [] = str_of '' '' \<and>
   index0 (py_split (str_of '' '')) = Inl IndexError \<and>
   extract_transaction_info (str_of ''Transaction Number : :: '') = Inr None \<and>
   bot_extract_transaction_info (str_of ''Transaction Number : :: '') = Inr (None, None, None)"
proof -
  let ?t = "str_of ''Transaction Number : :: ''"
  have dec: "?t = [] @ str_of ''Transaction Number'' @ str_of '' : :: ''"
    by (simp add: str_of_def)
  have lab: "py_lower (str_of ''Transaction Number'') = py_lower label" by (simp add: label_def)
  have first: "\<forall>p q. py_lower ?t = p @ py_lower label @ q \<longrightarrow> length ([]::str) \<le> length p"
    by simp
  have blank: "\<forall>c \<in> set (str_of '' : :: ''). c = cp CHR '':'' \<or> isspace c"
    by (simp add: isspace_def str_of_def cp_def)
  have hyp: "?t = [] @ str_of ''Transaction Number'' @ str_of '' : :: '' \<and>
      py_lower (str_of ''Transaction Number'') = py_lower label \<and>
      (\<forall>p q. py_lower ?t = p @ py_lower label @ q \<longrightarrow> length ([]::str) \<le> length p) \<and>
      (\<forall>c \<in> set (str_of '' : :: ''). c = cp CHR '':'' \<or> isspace c)"
    by (intro conjI dec lab first blank)
  have 1: "extract_transaction_info ?t = Inr None \<and>
      bot_extract_transaction_info ?t = Inr (None, None, None)"
    by (rule mp[OF conjunct2[OF conjunct2[OF resolve_total[of ?t "[]"
        "str_of ''Transaction Number''" "str_of '' : :: ''"]]] hyp])
  have 2: "py_replace (py_strip (str_of '' : :: '')) (cp CHR '':'') [] = str_of '' ''"
    by code_simp
  have 3: "index0 (py_split (str_of '' '')) = Inl IndexError" by code_simp
  show ?thesis
    by (intro conjI 2 3 conjunct1[OF 1] conjunct2[OF 1])
qed

text \<open>
  C10. The claim fails on the code, by the defect shown for C1. In the text below the
  label occurs twice, after twenty-five U+0130; the first occurrence is followed by
  \<^verbatim>\<open>X1\<close>, and the resolver returns \<^verbatim>\<open>Y2\<close>, the token after the second occurrence.
\<close>

theorem resolve_takes_second_occurrence:
  "replicate 25 0x130 @ str_of '' Transaction Number: X1 Transaction Number: Y2'' =
     (replicate 25 0x130 @ [0x20]) @ str_of ''Transaction Number'' @
       str_of '': X1 Transaction Number: Y2'' \<and>
   \<not> py_in (py_lower label) (py_lower (replicate 25 0x130 @ str_of '' Transaction Numbe'')) \<and>
   py_split (py_replace (py_strip (str_of '': X1 Transaction Number: Y2'')) (cp CHR '':'') []) =
     [str_of ''X1'', str_of ''Transaction'', str_of ''Number'', str_of ''Y2''] \<and>
   extract_transaction_info
     (replicate 25 0x130 @ str_of '' Transaction Number: X1 Transaction Number: Y2'') =
     Inr (Some (str_of ''Y2''))"
  by code_simp

section \<open>The claims about the text extractor\<close>

lemma fold_append_concat:
  "fold (\<lambda>x acc. acc @ f x) xs acc = acc @ concat (map f xs)"
  by (induction xs arbitrary: acc) simp_all

lemma fold_nested_concat:
  "fold (\<lambda>x acc. fold (\<lambda>y acc. acc @ f y) (g x) acc) xs acc =
     acc @ concat (map f (concat (map g xs)))"
  by (induction xs arbitrary: acc) (simp_all add: fold_append_concat)

lemma fold_nested3_concat:
  "fold (\<lambda>x acc. fold (\<lambda>y acc. fold (\<lambda>z acc. acc @ f z) (h y) acc) (g x) acc) xs acc =
     acc @ concat (map f (concat (map h (concat (map g xs)))))"
  by (induction xs arbitrary: acc) (simp_all add: fold_nested_concat)

lemma py_join_space:
  "py_join [0x20] (v # vs) = v @ concat (map (\<lambda>x. 0x20 # x) vs)"
  by (induction vs arbitrary: v) simp_all

text \<open>
  C6. The extracted text is the concatenation, over the lines of the document taken
  page by page, block by block and line by line, of the text of each line followed by a
  newline. The text of a line is its first word value followed, for each further word in
  order, by one space and that word value; it is empty for a line without words.
\<close>

theorem linearize_order:
  "linearize result =
     concat (map (\<lambda>l. (case map word_value (words l) of
                           [] \<Rightarrow> []
                         | v # vs \<Rightarrow> v @ concat (map (\<lambda>x. 0x20 # x) vs)) @ [0x0A])
                 (concat (map lines (concat (map blocks (pages result))))))"
proof -
  have line: "py_join [0x20] xs =
      (case xs of [] \<Rightarrow> [] | v # vs \<Rightarrow> v @ concat (map (\<lambda>x. 0x20 # x) vs))" for xs
    by (cases xs) (simp_all add: py_join_space)
  show ?thesis
    unfolding linearize_def by (simp add: fold_nested3_concat line)
qed

text \<open>
  Two lines in one block, the second page holding a line of its own: the words of each
  line stand on one line, with one space between them, in their order.
\<close>

theorem linearize_order_witness:
  "linearize
     \<lparr>pages =
        [\<lparr>blocks =
            [\<lparr>lines =
                [\<lparr>words = [\<lparr>word_value = str_of ''Transaction''\<rparr>,
                           \<lparr>word_value = str_of ''Number:''\<rparr>,
                           \<lparr>word_value = str_of ''AB0123''\<rparr>]\<rparr>,
                 \<lparr>words = [\<lparr>word_value = str_of ''Paid''\<rparr>,
                           \<lparr>word_value = str_of ''to''\<rparr>]\<rparr>]\<rparr>]\<rparr>,
         \<lparr>blocks = [\<lparr>lines = [\<lparr>words = [\<lparr>word_value = str_of ''End''\<rparr>]\<rparr>]\<rparr>]\<rparr>]\<rparr> =
   str_of ''Transaction Number: AB0123'' @ [0x0A] @ str_of ''Paid to'' @ [0x0A] @
   str_of ''End'' @ [0x0A]"
  unfolding linearize_order by (simp add: str_of_def cp_def)

lemma py_strip_blank:
  assumes "\<forall>c \<in> set s. isspace c"
  shows "py_strip s = []"
proof -
  have d: "dropWhile isspace s = []" using assms by simp
  show ?thesis unfolding py_strip_def d by simp
qed

lemma process_never_raises: "\<exists>r. process_image_for_txid ocr_model image_path = Inr r"
  by (simp add: process_image_for_txid_def split: sum.splits)

text \<open>
  C7. When the OCR backend raises, returns no result, returns a result without pages,
  or yields a text of whitespace only, the extractor returns \<^verbatim>\<open>(None, None)\<close>; and it
  never raises, whatever the backend does.
\<close>

theorem process_image_ocr_failure:
  "(ocr_model image_path = Inl e \<longrightarrow>
      process_image_for_txid ocr_model image_path = Inr (None, None)) \<and>
   (ocr_model image_path = Inr None \<longrightarrow>
      process_image_for_txid ocr_model image_path = Inr (None, None)) \<and>
   (ocr_model image_path = Inr (Some result) \<and> pages result = [] \<longrightarrow>
      process_image_for_txid ocr_model image_path = Inr (None, None)) \<and>
   (ocr_model image_path = Inr (Some result) \<and> (\<forall>c \<in> set (linearize result). isspace c) \<longrightarrow>
      process_image_for_txid ocr_model image_path = Inr (None, None)) \<and>
   (\<exists>r. process_image_for_txid ocr_model image_path = Inr r)"
proof (intro conjI impI)
  assume "ocr_model image_path = Inl e"
  then show "process_image_for_txid ocr_model image_path = Inr (None, None)"
    by (simp add: process_image_for_txid_def process_try_def)
next
  assume "ocr_model image_path = Inr None"
  then show "process_image_for_txid ocr_model image_path = Inr (None, None)"
    by (simp add: process_image_for_txid_def process_try_def)
next
  assume "ocr_model image_path = Inr (Some result) \<and> pages result = []"
  then show "process_image_for_txid ocr_model image_path = Inr (None, None)"
    by (simp add: process_image_for_txid_def process_try_def)
next
  assume h: "ocr_model image_path = Inr (Some result) \<and>
    (\<forall>c \<in> set (linearize result). isspace c)"
  then have "py_strip (linearize result) = []"
    by (intro py_strip_blank) simp
  then show "process_image_for_txid ocr_model image_path = Inr (None, None)"
    using h by (simp add: process_image_for_txid_def process_try_def)
next
  show "\<exists>r. process_image_for_txid ocr_model image_path = Inr r"
    by (rule process_never_raises)
qed

theorem process_image_ocr_failure_witness:
  "process_image_for_txid (\<lambda>p. Inl RuntimeError) (str_of ''downloads/a.jpg'') = Inr (None, None) \<and>
   process_image_for_txid (\<lambda>p. Inr None) (str_of ''downloads/a.jpg'') = Inr (None, None) \<and>
   process_image_for_txid (\<lambda>p. Inr (Some \<lparr>pages = []\<rparr>)) (str_of ''downloads/a.jpg'') =
     Inr (None, None) \<and>
   linearize \<lparr>pages = [\<lparr>blocks = [\<lparr>lines = [\<lparr>words = []\<rparr>]\<rparr>]\<rparr>]\<rparr> = [0x0A] \<and>
   process_image_for_txid
     (\<lambda>p. Inr (Some \<lparr>pages = [\<lparr>blocks = [\<lparr>lines = [\<lparr>words = []\<rparr>]\<rparr>]\<rparr>]\<rparr>))
     (str_of ''downloads/a.jpg'') = Inr (None, None)"
proof -
  let ?p = "(str_of ''downloads/a.jpg'')"
  let ?d = "\<lparr>pages = [\<lparr>blocks = [\<lparr>lines = [\<lparr>words = []\<rparr>]\<rparr>]\<rparr>]\<rparr>"
  have 1: "process_image_for_txid (\<lambda>p. Inl RuntimeError) ?p = Inr (None, None)"
    using process_image_ocr_failure[of "\<lambda>p. Inl RuntimeError" ?p RuntimeError] by simp
  have 2: "process_image_for_txid (\<lambda>p. Inr None) ?p = Inr (None, None)"
    using process_image_ocr_failure[of "\<lambda>p. Inr None" ?p] by simp
  have 3: "process_image_for_txid (\<lambda>p. Inr (Some \<lparr>pages = []\<rparr>)) ?p = Inr (None, None)"
    using process_image_ocr_failure[of "\<lambda>p. Inr (Some \<lparr>pages = []\<rparr>)" ?p _ "\<lparr>pages = []\<rparr>"]
    by simp
  have lin: "linearize ?d = [0x0A]"
    by (simp add: linearize_def)
  have blank: "\<forall>c \<in> set (linearize ?d). isspace c"
    unfolding lin by (simp add: isspace_def)
  have 4: "process_image_for_txid (\<lambda>p. Inr (Some ?d)) ?p = Inr (None, None)"
    using process_image_ocr_failure[of "\<lambda>p. Inr (Some ?d)" ?p _ ?d] blank by simp
  show ?thesis by (intro conjI 1 2 3 4 lin)
qed

section \<open>The claims about verification\<close>

lemma py_in_single: "py_in [c] s = (c \<in> set s)"
  by (induction s) auto

lemma py_replace_single: "py_replace s c [d] = map (\<lambda>x. if x = c then d else x) s"
  by (induction s) (simp_all add: py_replace_def)

lemma format_lookup_url: "py_format TELEBIRR_VERIFICATION_URL identifier = lookup_url identifier"
  by (simp add: TELEBIRR_VERIFICATION_URL_def lookup_url_def str_of_def cp_def)

lemma py_in_O: "py_in (str_of ''O'') s = (cp CHR ''O'' \<in> set s)"
  unfolding py_in_single[symmetric] by (simp add: str_of_def)

lemma py_in_0: "py_in (str_of ''0'') s = (cp CHR ''0'' \<in> set s)"
  unfolding py_in_single[symmetric] by (simp add: str_of_def)

lemma replace_O: "py_replace s (cp CHR ''O'') (str_of ''0'') =
    map (\<lambda>c. if c = cp CHR ''O'' then cp CHR ''0'' else c) s"
  using py_replace_single[of s "cp CHR ''O''" "cp CHR ''0''"] by (simp add: str_of_def)

lemma replace_0: "py_replace s (cp CHR ''0'') (str_of ''O'') =
    map (\<lambda>c. if c = cp CHR ''0'' then cp CHR ''O'' else c) s"
  using py_replace_single[of s "cp CHR ''0''" "cp CHR ''O''"] by (simp add: str_of_def)

lemma verify_try_candidates:
  "verify_try endpoint tx_id TELEBIRR_VERIFICATION_URL w =
     spec_try_candidates endpoint (spec_candidates tx_id) w"
proof (cases "endpoint (length (requests w)) (lookup_url tx_id)")
  case (Inl e)
  then show ?thesis
    unfolding verify_try_def spec_candidates_def Let_def format_lookup_url
      and_then_def ret_def requests_get_def
    by simp
next
  case (Inr r)
  show ?thesis
  proof (cases "is_success r")
    case True
    then show ?thesis
      using Inr unfolding verify_try_def spec_candidates_def Let_def format_lookup_url
        and_then_def ret_def requests_get_def is_success_def
      by simp
  next
    case False
    show ?thesis
      using Inr False unfolding verify_try_def spec_candidates_def Let_def format_lookup_url
        py_in_O py_in_0 replace_O replace_0 and_then_def ret_def requests_get_def is_success_def
      by (cases "(cp CHR ''O'') \<in> set tx_id"; cases "(cp CHR ''0'') \<in> set tx_id")
         (auto simp: Let_def split: sum.splits)
  qed
qed

lemma try_candidates_trace:
  "spec_try_candidates endpoint cs w = (res, w') \<Longrightarrow>
   \<exists>k \<le> length cs.
     w' = w\<lparr>requests := requests w @ map lookup_url (take k cs)\<rparr> \<and>
     (\<forall>i < k. Suc i < k \<longrightarrow>
        attempt_outcome endpoint (length (requests w) + i) (cs ! i) = Rejected) \<and>
     (case res of
        Inl e \<Rightarrow> 0 < k \<and>
          attempt_outcome endpoint (length (requests w) + (k - 1)) (cs ! (k - 1)) = Raised e
      | Inr True \<Rightarrow> 0 < k \<and>
          attempt_outcome endpoint (length (requests w) + (k - 1)) (cs ! (k - 1)) = Accepted
      | Inr False \<Rightarrow> k = length cs \<and>
          (\<forall>i < k. attempt_outcome endpoint (length (requests w) + i) (cs ! i) = Rejected))"
proof (induction cs arbitrary: w)
  case Nil
  then show ?case by auto
next
  case (Cons c cs)
  let ?w1 = "w\<lparr>requests := requests w @ [lookup_url c]\<rparr>"
  let ?n = "length (requests w)"
  show ?case
  proof (cases "attempt_outcome endpoint ?n c")
    case Accepted
    then have "res = Inr True" and "w' = ?w1"
      using Cons.prems by (auto simp: attempt_outcome_def Let_def split: sum.splits if_splits)
    then show ?thesis using Accepted by (intro exI[of _ 1]) simp
  next
    case (Raised e)
    then have "res = Inl e" and "w' = ?w1"
      using Cons.prems by (auto simp: attempt_outcome_def Let_def split: sum.splits if_splits)
    then show ?thesis using Raised by (intro exI[of _ 1]) simp
  next
    case Rejected
    then have "spec_try_candidates endpoint cs ?w1 = (res, w')"
      using Cons.prems by (auto simp: attempt_outcome_def Let_def split: sum.splits if_splits)
    from Cons.IH[OF this] obtain k where k: "k \<le> length cs"
      and w': "w' = ?w1\<lparr>requests := requests ?w1 @ map lookup_url (take k cs)\<rparr>"
      and before: "\<forall>i < k. Suc i < k \<longrightarrow>
        attempt_outcome endpoint (length (requests ?w1) + i) (cs ! i) = Rejected"
      and final: "case res of
        Inl e \<Rightarrow> 0 < k \<and>
          attempt_outcome endpoint (length (requests ?w1) + (k - 1)) (cs ! (k - 1)) = Raised e
      | Inr True \<Rightarrow> 0 < k \<and>
          attempt_outcome endpoint (length (requests ?w1) + (k - 1)) (cs ! (k - 1)) = Accepted
      | Inr False \<Rightarrow> k = length cs \<and>
          (\<forall>i < k. attempt_outcome endpoint (length (requests ?w1) + i) (cs ! i) = Rejected)"
      by blast
    have 1: "Suc k \<le> length (c # cs)" using k by simp
    have 2: "w' = w\<lparr>requests := requests w @ map lookup_url (take (Suc k) (c # cs))\<rparr>"
      using w' by simp
    have 3: "\<forall>i < Suc k. Suc i < Suc k \<longrightarrow>
        attempt_outcome endpoint (?n + i) ((c # cs) ! i) = Rejected"
    proof (intro allI impI)
      fix i assume "i < Suc k" and "Suc i < Suc k"
      then show "attempt_outcome endpoint (?n + i) ((c # cs) ! i) = Rejected"
        using before Rejected by (cases i) auto
    qed
    have 4: "case res of
        Inl e \<Rightarrow> 0 < Suc k \<and>
          attempt_outcome endpoint (?n + (Suc k - 1)) ((c # cs) ! (Suc k - 1)) = Raised e
      | Inr True \<Rightarrow> 0 < Suc k \<and>
          attempt_outcome endpoint (?n + (Suc k - 1)) ((c # cs) ! (Suc k - 1)) = Accepted
      | Inr False \<Rightarrow> Suc k = length (c # cs) \<and>
          (\<forall>i < Suc k. attempt_outcome endpoint (?n + i) ((c # cs) ! i) = Rejected)"
    proof (cases res)
      case (Inl e)
      then obtain j where "k = Suc j" using final by (cases k) auto
      then show ?thesis using final Inl by simp
    next
      case (Inr b)
      show ?thesis
      proof (cases b)
        case True
        then obtain j where "k = Suc j" using final Inr by (cases k) auto
        then show ?thesis using final Inr True by simp
      next
        case False
        have "\<forall>i < Suc k. attempt_outcome endpoint (?n + i) ((c # cs) ! i) = Rejected"
        proof (intro allI impI)
          fix i assume "i < Suc k"
          then show "attempt_outcome endpoint (?n + i) ((c # cs) ! i) = Rejected"
            using final Inr False Rejected by (cases i) auto
        qed
        then show ?thesis using final Inr False by simp
      qed
    qed
    show ?thesis using 1 2 3 4 by blast
  qed
qed

lemma candidates_nonempty: "0 < length (spec_candidates tx_id)"
  by (simp add: spec_candidates_def)

lemma verify_cases:
  assumes "verify_telebirr_receipt endpoint tx_id TELEBIRR_VERIFICATION_URL w = (res, w')"
  shows "\<exists>res0. spec_try_candidates endpoint (spec_candidates tx_id) w = (res0, w') \<and>
           res = (case res0 of
                    Inl e \<Rightarrow> if e = RequestException then Inr False else Inl e
                  | Inr b \<Rightarrow> Inr b)"
proof -
  obtain res0 w0 where r: "spec_try_candidates endpoint (spec_candidates tx_id) w = (res0, w0)"
    by (cases "spec_try_candidates endpoint (spec_candidates tx_id) w") auto
  then have "verify_telebirr_receipt endpoint tx_id TELEBIRR_VERIFICATION_URL w =
      (case res0 of
         Inl e \<Rightarrow> if e = RequestException then (Inr False, w0) else (Inl e, w0)
       | Inr b \<Rightarrow> (Inr b, w0))"
    by (simp add: verify_telebirr_receipt_def try_except_def verify_try_candidates ret_def
        split: sum.splits)
  then show ?thesis using assms r by (auto split: sum.splits if_splits)
qed

lemma verify_trace:
  assumes "verify_telebirr_receipt endpoint tx_id TELEBIRR_VERIFICATION_URL w = (res, w')"
  shows "\<exists>k. 0 < k \<and> k \<le> length (spec_candidates tx_id) \<and>
     w' = w\<lparr>requests := requests w @ map lookup_url (take k (spec_candidates tx_id))\<rparr> \<and>
     (\<forall>i < k. Suc i < k \<longrightarrow>
        attempt_outcome endpoint (length (requests w) + i) (spec_candidates tx_id ! i) = Rejected) \<and>
     (case attempt_outcome endpoint (length (requests w) + (k - 1))
             (spec_candidates tx_id ! (k - 1)) of
        Accepted \<Rightarrow> res = Inr True
      | Rejected \<Rightarrow> k = length (spec_candidates tx_id) \<and> res = Inr False
      | Raised e \<Rightarrow> res = (if e = RequestException then Inr False else Inl e))"
proof -
  let ?cs = "spec_candidates tx_id"
  let ?out = "\<lambda>i. attempt_outcome endpoint (length (requests w) + i) (?cs ! i)"
  from verify_cases[OF assms] obtain res0 where
    run: "spec_try_candidates endpoint ?cs w = (res0, w')"
    and res: "res = (case res0 of
                    Inl e \<Rightarrow> if e = RequestException then Inr False else Inl e
                  | Inr b \<Rightarrow> Inr b)"
    by blast
  from try_candidates_trace[OF run] obtain k where k: "k \<le> length ?cs"
    and w': "w' = w\<lparr>requests := requests w @ map lookup_url (take k ?cs)\<rparr>"
    and before: "\<forall>i < k. Suc i < k \<longrightarrow> ?out i = Rejected"
    and final: "case res0 of
        Inl e \<Rightarrow> 0 < k \<and> ?out (k - 1) = Raised e
      | Inr True \<Rightarrow> 0 < k \<and> ?out (k - 1) = Accepted
      | Inr False \<Rightarrow> k = length ?cs \<and> (\<forall>i < k. ?out i = Rejected)"
    by blast
  have pos: "0 < k"
    using final candidates_nonempty[of tx_id] by (auto split: sum.splits bool.splits)
  have last: "case ?out (k - 1) of
        Accepted \<Rightarrow> res = Inr True
      | Rejected \<Rightarrow> k = length ?cs \<and> res = Inr False
      | Raised e \<Rightarrow> res = (if e = RequestException then Inr False else Inl e)"
  proof -
    consider (raised) e where "res0 = Inl e" | (accepted) "res0 = Inr True"
      | (rejected) "res0 = Inr False"
      by (cases res0) auto
    then show ?thesis
    proof cases
      case raised
      have "0 < k \<and> ?out (k - 1) = Raised e"
        using final unfolding raised sum.case .
      then have out: "?out (k - 1) = Raised e" by (rule conjunct2)
      show ?thesis unfolding out using res raised by simp
    next
      case accepted
      have "0 < k \<and> ?out (k - 1) = Accepted"
        using final unfolding accepted sum.case bool.case .
      then have out: "?out (k - 1) = Accepted" by (rule conjunct2)
      show ?thesis unfolding out using res accepted by simp
    next
      case rejected
      have "k = length ?cs \<and> (\<forall>i < k. ?out i = Rejected)"
        using final unfolding rejected sum.case bool.case .
      then have all: "\<forall>i < k. ?out i = Rejected" and len: "k = length ?cs"
        by blast+
      have "k - 1 < k" using pos by simp
      then have out: "?out (k - 1) = Rejected" using all by blast
      show ?thesis unfolding out using res rejected len by simp
    qed
  qed
  show ?thesis using pos k w' before last by blast
qed

text \<open>
  C2. A run of \<^verbatim>\<open>verify_telebirr_receipt\<close> requests the lookup URLs of the first \<open>k\<close>
  candidates, in their order (raw identifier; \<open>O\<close> to \<open>0\<close> variant if the raw identifier
  has an \<open>O\<close>; \<open>0\<close> to \<open>O\<close> variant if it has a \<open>0\<close>), for some \<open>k\<close> of at least one.
  Every attempt but the last was rejected, so that no attempt follows a success; when
  the last attempt is accepted the result is \<open>True\<close>; when it is rejected all candidates
  have been tried and the result is \<open>False\<close>. An identifier with neither \<open>O\<close> nor \<open>0\<close>
  causes exactly one request.
\<close>

theorem verify_candidate_order:
  assumes "verify_telebirr_receipt endpoint tx_id TELEBIRR_VERIFICATION_URL w = (res, w')"
  shows "(\<exists>k. 1 \<le> k \<and> k \<le> length (spec_candidates tx_id) \<and>
            requests w' = requests w @ map lookup_url (take k (spec_candidates tx_id)) \<and>
            (\<forall>i < k. Suc i < k \<longrightarrow>
               attempt_outcome endpoint (length (requests w) + i) (spec_candidates tx_id ! i) =
                 Rejected) \<and>
            (attempt_outcome endpoint (length (requests w) + (k - 1))
               (spec_candidates tx_id ! (k - 1)) = Accepted \<longrightarrow> res = Inr True) \<and>
            (attempt_outcome endpoint (length (requests w) + (k - 1))
               (spec_candidates tx_id ! (k - 1)) = Rejected \<longrightarrow>
               k = length (spec_candidates tx_id) \<and> res = Inr False)) \<and>
         ((cp CHR ''O'') \<notin> set tx_id \<and> (cp CHR ''0'') \<notin> set tx_id \<longrightarrow>
            requests w' = requests w @ [lookup_url tx_id])"
proof -
  let ?cs = "spec_candidates tx_id"
  let ?out = "\<lambda>i. attempt_outcome endpoint (length (requests w) + i) (?cs ! i)"
  from verify_trace[OF assms] obtain k where pos: "0 < k" and k: "k \<le> length ?cs"
    and w': "w' = w\<lparr>requests := requests w @ map lookup_url (take k ?cs)\<rparr>"
    and before: "\<forall>i < k. Suc i < k \<longrightarrow> ?out i = Rejected"
    and last: "case ?out (k - 1) of
        Accepted \<Rightarrow> res = Inr True
      | Rejected \<Rightarrow> k = length ?cs \<and> res = Inr False
      | Raised e \<Rightarrow> res = (if e = RequestException then Inr False else Inl e)"
    by blast
  have reqs: "requests w' = requests w @ map lookup_url (take k ?cs)"
    unfolding w' by simp
  have acc: "?out (k - 1) = Accepted \<longrightarrow> res = Inr True"
    using last by (auto split: outcome.splits)
  have rej: "?out (k - 1) = Rejected \<longrightarrow> k = length ?cs \<and> res = Inr False"
    using last by (auto split: outcome.splits)
  have first: "\<exists>k. 1 \<le> k \<and> k \<le> length ?cs \<and>
            requests w' = requests w @ map lookup_url (take k ?cs) \<and>
            (\<forall>i < k. Suc i < k \<longrightarrow> ?out i = Rejected) \<and>
            (?out (k - 1) = Accepted \<longrightarrow> res = Inr True) \<and>
            (?out (k - 1) = Rejected \<longrightarrow> k = length ?cs \<and> res = Inr False)"
    using pos k reqs before acc rej by (intro exI[of _ k]) simp
  have one: "requests w' = requests w @ [lookup_url tx_id]"
    if "(cp CHR ''O'') \<notin> set tx_id \<and> (cp CHR ''0'') \<notin> set tx_id"
  proof -
    have cs: "?cs = [tx_id]" using that by (simp add: spec_candidates_def)
    then have "k = 1" using pos k by simp
    then show ?thesis using reqs cs by simp
  qed
  show ?thesis using first one by blast
qed

theorem verify_candidate_order_witness:
  "verify_telebirr_receipt endpoint_second (str_of ''AB01O3'') TELEBIRR_VERIFICATION_URL world0 =
     (Inr True, world0\<lparr>requests := [lookup_url (str_of ''AB01O3''), lookup_url (str_of ''AB0103'')]\<rparr>) \<and>
   attempt_outcome endpoint_second 0 (str_of ''AB01O3'') = Rejected \<and>
   attempt_outcome endpoint_second 1 (str_of ''AB0103'') = Accepted \<and>
   verify_telebirr_receipt endpoint_rejects (str_of ''XYZ9'') TELEBIRR_VERIFICATION_URL world0 =
     (Inr False, world0\<lparr>requests := [lookup_url (str_of ''XYZ9'')]\<rparr>) \<and>
   requests (world0\<lparr>requests := [lookup_url (str_of ''XYZ9'')]\<rparr>) =
     requests world0 @ [lookup_url (str_of ''XYZ9'')]"
proof -
  have run1: "verify_telebirr_receipt endpoint_rejects (str_of ''XYZ9'') TELEBIRR_VERIFICATION_URL world0 =
     (Inr False, world0\<lparr>requests := [lookup_url (str_of ''XYZ9'')]\<rparr>)"
    by code_simp
  have run2: "verify_telebirr_receipt endpoint_second (str_of ''AB01O3'') TELEBIRR_VERIFICATION_URL world0 =
     (Inr True, world0\<lparr>requests := [lookup_url (str_of ''AB01O3''), lookup_url (str_of ''AB0103'')]\<rparr>)"
    by code_simp
  have out0: "attempt_outcome endpoint_second 0 (str_of ''AB01O3'') = Rejected" by code_simp
  have out1: "attempt_outcome endpoint_second 1 (str_of ''AB0103'') = Accepted" by code_simp
  have plain: "(cp CHR ''O'') \<notin> set (str_of ''XYZ9'') \<and> (cp CHR ''0'') \<notin> set (str_of ''XYZ9'')" by simp
  have one: "requests (world0\<lparr>requests := [lookup_url (str_of ''XYZ9'')]\<rparr>) =
     requests world0 @ [lookup_url (str_of ''XYZ9'')]"
    by (rule mp[OF conjunct2[OF verify_candidate_order[OF run1]] plain])
  show ?thesis by (intro conjI run1 run2 out0 out1 one)
qed

lemma attempt_accepted_iff:
  "attempt_outcome endpoint n identifier = Accepted \<longleftrightarrow>
     (\<exists>r. endpoint n ((str_of ''https://transactioninfo.ethiotelecom.et/receipt/'') @ identifier) = Inr r \<and>
          status_code r = 200 \<and> (\<exists>pre post. resp_text r = pre @ SUCCESS_STRING @ post))"
  by (auto simp: attempt_outcome_def lookup_url_def py_in_iff split: sum.splits)

lemma verify_true_iff:
  assumes "verify_telebirr_receipt endpoint tx_id TELEBIRR_VERIFICATION_URL w = (res, w')"
  shows "\<exists>k. 0 < k \<and> k \<le> length (spec_candidates tx_id) \<and>
           requests w' = requests w @ map lookup_url (take k (spec_candidates tx_id)) \<and>
           (res = Inr True \<longleftrightarrow>
              attempt_outcome endpoint (length (requests w) + (k - 1))
                (spec_candidates tx_id ! (k - 1)) = Accepted)"
proof -
  let ?cs = "spec_candidates tx_id"
  let ?out = "\<lambda>i. attempt_outcome endpoint (length (requests w) + i) (?cs ! i)"
  from verify_trace[OF assms] obtain k where pos: "0 < k" and k: "k \<le> length ?cs"
    and w': "w' = w\<lparr>requests := requests w @ map lookup_url (take k ?cs)\<rparr>"
    and last: "case ?out (k - 1) of
        Accepted \<Rightarrow> res = Inr True
      | Rejected \<Rightarrow> k = length ?cs \<and> res = Inr False
      | Raised e \<Rightarrow> res = (if e = RequestException then Inr False else Inl e)"
    by blast
  have reqs: "requests w' = requests w @ map lookup_url (take k ?cs)"
    unfolding w' by simp
  have "res = Inr True \<longleftrightarrow> ?out (k - 1) = Accepted"
    using last by (cases "?out (k - 1)") (auto split: if_splits)
  then show ?thesis using pos k reqs by blast
qed

text \<open>
  C5. The first attempt of \<^verbatim>\<open>verify_telebirr_receipt\<close> alone ends the run with \<open>True\<close>
  exactly when the request for the template with the identifier put in its field returns
  status 200 and a body that contains the marker. In general the run returns \<open>True\<close>
  exactly when its last request, which is the template filled with one of the
  candidates, returned status 200 and a body that contains the marker.
\<close>

theorem attempt_success_iff:
  "(verify_telebirr_receipt endpoint tx_id TELEBIRR_VERIFICATION_URL w =
      (Inr True, w\<lparr>requests := requests w @
         [(str_of ''https://transactioninfo.ethiotelecom.et/receipt/'') @ tx_id]\<rparr>)
    \<longleftrightarrow>
    (\<exists>r. endpoint (length (requests w))
            ((str_of ''https://transactioninfo.ethiotelecom.et/receipt/'') @ tx_id) = Inr r \<and>
         status_code r = 200 \<and> (\<exists>pre post. resp_text r = pre @ SUCCESS_STRING @ post))) \<and>
   (verify_telebirr_receipt endpoint tx_id TELEBIRR_VERIFICATION_URL w = (res, w') \<longrightarrow>
      (res = Inr True \<longleftrightarrow>
         (\<exists>c r. c \<in> set (spec_candidates tx_id) \<and> requests w' \<noteq> [] \<and>
            last (requests w') = (str_of ''https://transactioninfo.ethiotelecom.et/receipt/'') @ c \<and>
            endpoint (length (requests w') - 1) (last (requests w')) = Inr r \<and>
            status_code r = 200 \<and> (\<exists>pre post. resp_text r = pre @ SUCCESS_STRING @ post))))"
proof (intro conjI impI)
  let ?url = "(str_of ''https://transactioninfo.ethiotelecom.et/receipt/'') @ tx_id"
  let ?w1 = "w\<lparr>requests := requests w @ [?url]\<rparr>"
  have hd: "spec_candidates tx_id ! 0 = tx_id" by (simp add: spec_candidates_def)
  show "verify_telebirr_receipt endpoint tx_id TELEBIRR_VERIFICATION_URL w = (Inr True, ?w1)
    \<longleftrightarrow>
    (\<exists>r. endpoint (length (requests w)) ?url = Inr r \<and>
         status_code r = 200 \<and> (\<exists>pre post. resp_text r = pre @ SUCCESS_STRING @ post))"
  proof
    assume run: "verify_telebirr_receipt endpoint tx_id TELEBIRR_VERIFICATION_URL w =
      (Inr True, ?w1)"
    from verify_true_iff[OF run] obtain k where pos: "0 < k"
      and k: "k \<le> length (spec_candidates tx_id)"
      and reqs: "requests ?w1 = requests w @ map lookup_url (take k (spec_candidates tx_id))"
      and acc: "attempt_outcome endpoint (length (requests w) + (k - 1))
                (spec_candidates tx_id ! (k - 1)) = Accepted"
      by blast
    have "length (requests ?w1) = length (requests w) + min (length (spec_candidates tx_id)) k"
      by (subst reqs) simp
    then have "k = 1" using pos k by (simp add: min_def)
    then have "attempt_outcome endpoint (length (requests w)) tx_id = Accepted"
      using acc hd by simp
    then show "\<exists>r. endpoint (length (requests w)) ?url = Inr r \<and>
         status_code r = 200 \<and> (\<exists>pre post. resp_text r = pre @ SUCCESS_STRING @ post)"
      unfolding attempt_accepted_iff .
  next
    assume "\<exists>r. endpoint (length (requests w)) ?url = Inr r \<and>
         status_code r = 200 \<and> (\<exists>pre post. resp_text r = pre @ SUCCESS_STRING @ post)"
    then obtain r where r: "endpoint (length (requests w)) (lookup_url tx_id) = Inr r"
      and ok: "status_code r = 200 \<and> py_in SUCCESS_STRING (resp_text r)"
      unfolding py_in_iff lookup_url_def by blast
    obtain cs where cs: "spec_candidates tx_id = tx_id # cs"
      by (simp add: spec_candidates_def)
    have "spec_try_candidates endpoint (spec_candidates tx_id) w = (Inr True, ?w1)"
      unfolding cs using r ok by (simp add: Let_def lookup_url_def)
    then show "verify_telebirr_receipt endpoint tx_id TELEBIRR_VERIFICATION_URL w =
      (Inr True, ?w1)"
      by (simp add: verify_telebirr_receipt_def try_except_def verify_try_candidates)
  qed
next
  assume run: "verify_telebirr_receipt endpoint tx_id TELEBIRR_VERIFICATION_URL w = (res, w')"
  let ?cs = "spec_candidates tx_id"
  from verify_true_iff[OF run] obtain k where pos: "0 < k" and k: "k \<le> length ?cs"
    and reqs: "requests w' = requests w @ map lookup_url (take k ?cs)"
    and iff: "res = Inr True \<longleftrightarrow>
       attempt_outcome endpoint (length (requests w) + (k - 1)) (?cs ! (k - 1)) = Accepted"
    by blast
  have tk: "take k ?cs \<noteq> []" using pos candidates_nonempty[of tx_id] by auto
  have nonempty: "requests w' \<noteq> []" using reqs tk by simp
  have "last (take k ?cs) = ?cs ! (k - 1)"
    using pos k tk by (simp add: last_conv_nth min_def)
  then have lastreq: "last (requests w') = lookup_url (?cs ! (k - 1))"
    using reqs tk by (simp add: last_map)
  have len: "length (requests w') - 1 = length (requests w) + (k - 1)"
    using reqs pos k by (simp add: min_def)
  have mem: "?cs ! (k - 1) \<in> set ?cs" using pos k by simp
  show "res = Inr True \<longleftrightarrow>
         (\<exists>c r. c \<in> set ?cs \<and> requests w' \<noteq> [] \<and>
            last (requests w') = (str_of ''https://transactioninfo.ethiotelecom.et/receipt/'') @ c \<and>
            endpoint (length (requests w') - 1) (last (requests w')) = Inr r \<and>
            status_code r = 200 \<and> (\<exists>pre post. resp_text r = pre @ SUCCESS_STRING @ post))"
  proof
    assume "res = Inr True"
    then have "attempt_outcome endpoint (length (requests w) + (k - 1)) (?cs ! (k - 1)) =
        Accepted" using iff by simp
    then obtain r where
      "endpoint (length (requests w) + (k - 1)) (lookup_url (?cs ! (k - 1))) = Inr r"
      and "status_code r = 200" and "\<exists>pre post. resp_text r = pre @ SUCCESS_STRING @ post"
      unfolding attempt_accepted_iff lookup_url_def by blast
    then show "\<exists>c r. c \<in> set ?cs \<and> requests w' \<noteq> [] \<and>
            last (requests w') = (str_of ''https://transactioninfo.ethiotelecom.et/receipt/'') @ c \<and>
            endpoint (length (requests w') - 1) (last (requests w')) = Inr r \<and>
            status_code r = 200 \<and> (\<exists>pre post. resp_text r = pre @ SUCCESS_STRING @ post)"
      using mem nonempty lastreq len unfolding lookup_url_def by metis
  next
    assume "\<exists>c r. c \<in> set ?cs \<and> requests w' \<noteq> [] \<and>
            last (requests w') = (str_of ''https://transactioninfo.ethiotelecom.et/receipt/'') @ c \<and>
            endpoint (length (requests w') - 1) (last (requests w')) = Inr r \<and>
            status_code r = 200 \<and> (\<exists>pre post. resp_text r = pre @ SUCCESS_STRING @ post)"
    then obtain r where
      e: "endpoint (length (requests w') - 1) (last (requests w')) = Inr r"
      and ok: "status_code r = 200" "\<exists>pre post. resp_text r = pre @ SUCCESS_STRING @ post"
      by blast
    have "endpoint (length (requests w) + (k - 1))
        ((str_of ''https://transactioninfo.ethiotelecom.et/receipt/'') @ ?cs ! (k - 1)) = Inr r"
      using e unfolding len lastreq lookup_url_def .
    then have "attempt_outcome endpoint (length (requests w) + (k - 1)) (?cs ! (k - 1)) =
        Accepted"
      unfolding attempt_accepted_iff using ok by blast
    then show "res = Inr True" using iff by simp
  qed
qed

theorem attempt_success_iff_witness:
  "endpoint_accepts (length (requests world0))
     ((str_of ''https://transactioninfo.ethiotelecom.et/receipt/'') @ (str_of ''XYZ9'')) =
     Inr \<lparr>status_code = 200, resp_text = SUCCESS_STRING\<rparr> \<and>
   verify_telebirr_receipt endpoint_accepts (str_of ''XYZ9'') TELEBIRR_VERIFICATION_URL world0 =
     (Inr True, world0\<lparr>requests := requests world0 @
        [(str_of ''https://transactioninfo.ethiotelecom.et/receipt/'') @ (str_of ''XYZ9'')]\<rparr>)"
proof -
  let ?url = "(str_of ''https://transactioninfo.ethiotelecom.et/receipt/'') @ (str_of ''XYZ9'')"
  let ?r = "\<lparr>status_code = 200, resp_text = SUCCESS_STRING\<rparr>"
  have answer: "endpoint_accepts (length (requests world0)) ?url = Inr ?r"
    by (simp add: endpoint_accepts_def)
  have "resp_text ?r = [] @ SUCCESS_STRING @ []" by simp
  then have "\<exists>pre post. resp_text ?r = pre @ SUCCESS_STRING @ post" by blast
  then have "\<exists>r. endpoint_accepts (length (requests world0)) ?url = Inr r \<and>
      status_code r = 200 \<and> (\<exists>pre post. resp_text r = pre @ SUCCESS_STRING @ post)"
    using answer by (intro exI[of _ ?r]) simp
  then have "verify_telebirr_receipt endpoint_accepts (str_of ''XYZ9'') TELEBIRR_VERIFICATION_URL world0 =
     (Inr True, world0\<lparr>requests := requests world0 @ [?url]\<rparr>)"
    by (rule iffD2[OF conjunct1[OF attempt_success_iff[of endpoint_accepts "(str_of ''XYZ9'')" world0]]])
  then show ?thesis using answer by (intro conjI)
qed

subsection \<open>The photo handler when every message is delivered\<close>

lemma reply_text_ok:
  assumes "\<forall>n. env_telegram env n = None"
  shows "reply_text env m w = (Inr (), w\<lparr>replies := replies w @ [m]\<rparr>)"
  using assms by (simp add: reply_text_def)

lemma remove_if_exists_eq:
  "remove_if_exists file_path w = (Inr (), w\<lparr>files := files w - {file_path}\<rparr>)"
  by (simp add: remove_if_exists_def)

lemma handle_try_candidates:
  assumes tg: "\<forall>n. env_telegram env n = None"
  shows "handle_try env file_path tx_id TELEBIRR_VERIFICATION_URL (lookup_url tx_id) w =
     (case spec_try_candidates (env_endpoint env) (spec_candidates tx_id) w of
        (Inl e, w1) \<Rightarrow> (Inl e, w1)
      | (Inr False, w1) \<Rightarrow> (Inr False, w1\<lparr>replies := replies w @ [NotVerified]\<rparr>)
      | (Inr True, w1) \<Rightarrow>
          if length (requests w1) = Suc (length (requests w))
          then (Inr False,
                w1\<lparr>replies := replies w @ [Valid, ViewReceipt (last (requests w1))]\<rparr>)
          else (Inr True,
                w1\<lparr>replies := replies w @
                     [if (cp CHR ''O'') \<in> set tx_id \<and>
                         length (requests w1) = Suc (Suc (length (requests w)))
                      then ValidAfterO0 else ValidAfter0O,
                      ViewReceipt (last (requests w1))],
                   files := files w - {file_path}\<rparr>))"
proof (cases "env_endpoint env (length (requests w)) (lookup_url tx_id)")
  case (Inl e)
  then show ?thesis
    unfolding handle_try_def spec_candidates_def Let_def and_then_def ret_def requests_get_def
    by simp
next
  case (Inr r)
  show ?thesis
  proof (cases "is_success r")
    case True
    then show ?thesis
      using Inr unfolding handle_try_def spec_candidates_def Let_def reply_text_ok[OF tg]
        and_then_def ret_def requests_get_def is_success_def
      by simp
  next
    case False
    show ?thesis
      using Inr False unfolding handle_try_def spec_candidates_def Let_def format_lookup_url
        py_in_O py_in_0 replace_O replace_0 reply_text_ok[OF tg] remove_if_exists_eq
        and_then_def ret_def requests_get_def is_success_def
      by (cases "(cp CHR ''O'') \<in> set tx_id"; cases "(cp CHR ''0'') \<in> set tx_id")
         (auto simp: Let_def split: sum.splits)
  qed
qed

lemma extract_some_nonempty:
  assumes "extract_transaction_info text_data = Inr (Some tx_id)"
  shows "tx_id \<noteq> []"
proof -
  have "py_in (py_lower label) (py_lower text_data)"
  proof (rule ccontr)
    assume "\<not> py_in (py_lower label) (py_lower text_data)"
    then have "extract_transaction_info text_data = Inr None"
      by (simp add: extract_transaction_info_def)
    then show False using assms by simp
  qed
  from extract_found[OF this] obtain p :: str where
    "extract_transaction_info text_data =
       (case py_split (py_replace (py_strip
               (drop (length p + length label) text_data)) (cp CHR '':'') []) of
          [] \<Rightarrow> Inr None
        | tok # toks \<Rightarrow> Inr (Some (py_upper tok)))"
    by (elim exE conjE)
  then obtain tok toks where
    toks: "py_split (py_replace (py_strip
               (drop (length p + length label) text_data)) (cp CHR '':'') []) = tok # toks"
    and tx: "tx_id = py_upper tok"
    using assms by (auto split: list.splits)
  have "tok \<in> set (py_split (py_replace (py_strip
               (drop (length p + length label) text_data)) (cp CHR '':'') []))"
    unfolding toks by simp
  then have "tok \<noteq> []" using py_split_tokens by blast
  then show ?thesis unfolding tx by (rule py_upper_nonempty)
qed

lemma bot_process_cases:
  "bot_process_image_for_txid ocr_model image_path = Inr (None, None, None) \<or>
   (\<exists>tx_id. tx_id \<noteq> [] \<and>
      bot_process_image_for_txid ocr_model image_path =
        Inr (Some (str_of ''Telebirr''), Some tx_id, Some TELEBIRR_VERIFICATION_URL))"
proof (cases "bot_process_try ocr_model image_path")
  case (Inl e)
  then show ?thesis by (simp add: bot_process_image_for_txid_def)
next
  case (Inr r)
  then have r: "bot_process_image_for_txid ocr_model image_path = Inr r"
    by (simp add: bot_process_image_for_txid_def)
  show ?thesis
  proof (cases "r = (None, None, None)")
    case True
    then show ?thesis using r by simp
  next
    case False
    then obtain result where
      ex: "bot_extract_transaction_info (linearize result) = Inr r"
      using Inr unfolding bot_process_try_def Let_def
      by (auto split: sum.splits option.splits if_splits)
    obtain x where x: "extract_transaction_info (linearize result) = Inr x"
      using extract_never_raises by blast
    then obtain tx_id where tx: "x = Some tx_id"
      using ex False unfolding bot_extract_eq by (cases x) auto
    have "tx_id \<noteq> []" using x tx extract_some_nonempty by blast
    moreover have "r = (Some (str_of ''Telebirr''), Some tx_id, Some TELEBIRR_VERIFICATION_URL)"
      using ex x tx unfolding bot_extract_eq TELEBIRR_VERIFICATION_URL_def by simp
    ultimately show ?thesis using r by blast
  qed
qed


lemma url_nonempty: "TELEBIRR_VERIFICATION_URL \<noteq> []"
  by (simp add: TELEBIRR_VERIFICATION_URL_def)

lemma handle_photo_candidates:
  assumes tg: "\<forall>n. env_telegram env n = None"
    and ocr: "bot_process_image_for_txid (env_ocr env) ((str_of ''downloads/'') @ file_id @ (str_of ''.jpg'')) =
      Inr (Some bank, Some tx_id, Some TELEBIRR_VERIFICATION_URL)"
    and tx: "tx_id \<noteq> []"
  shows "handle_photo env file_id w =
     (case spec_try_candidates (env_endpoint env) (spec_candidates tx_id)
             (w\<lparr>files := insert ((str_of ''downloads/'') @ file_id @ (str_of ''.jpg'')) (files w),
                replies := replies w @ [Processing]\<rparr>) of
        (Inl e, w1) \<Rightarrow>
          if e = RequestException
          then (Inr (), w1\<lparr>replies := replies w @ [Processing, TransportError],
                          files := files w - {(str_of ''downloads/'') @ file_id @ (str_of ''.jpg'')}\<rparr>)
          else (Inl e, w1)
      | (Inr False, w1) \<Rightarrow>
          (Inr (), w1\<lparr>replies := replies w @ [Processing, NotVerified],
                    files := files w - {(str_of ''downloads/'') @ file_id @ (str_of ''.jpg'')}\<rparr>)
      | (Inr True, w1) \<Rightarrow>
          (Inr (), w1\<lparr>replies := replies w @
                      [Processing,
                       if length (requests w1) = Suc (length (requests w)) then Valid
                       else if (cp CHR ''O'') \<in> set tx_id \<and>
                               length (requests w1) = Suc (Suc (length (requests w)))
                       then ValidAfterO0 else ValidAfter0O,
                       ViewReceipt (last (requests w1))],
                    files := files w - {(str_of ''downloads/'') @ file_id @ (str_of ''.jpg'')}\<rparr>))"
proof -
  let ?fp = "(str_of ''downloads/'') @ file_id @ (str_of ''.jpg'')"
  let ?w0 = "w\<lparr>files := insert ?fp (files w), replies := replies w @ [Processing]\<rparr>"
  obtain res0 w1 where run:
    "spec_try_candidates (env_endpoint env) (spec_candidates tx_id) ?w0 = (res0, w1)"
    by (cases "spec_try_candidates (env_endpoint env) (spec_candidates tx_id) ?w0") auto
  from try_candidates_trace[OF run] obtain k where
    w1: "w1 = ?w0\<lparr>requests := requests ?w0 @ map lookup_url (take k (spec_candidates tx_id))\<rparr>"
    by blast
  have files: "files w1 = insert ?fp (files w)" and replies: "replies w1 = replies w @ [Processing]"
    unfolding w1 by simp_all
  have body: "handle_photo env file_id w =
      and_then
        (try_except (handle_try env ?fp tx_id TELEBIRR_VERIFICATION_URL (lookup_url tx_id))
           (\<lambda>e. e = RequestException)
           (and_then (reply_text env TransportError) (\<lambda>_. ret False)))
        (\<lambda>returned. if returned then ret () else remove_if_exists ?fp) ?w0"
    unfolding handle_photo_def Let_def
    using ocr tx url_nonempty
    by (simp add: and_then_def download_to_drive_def reply_text_ok[OF tg] format_lookup_url)
  consider (raised) e where "res0 = Inl e" | (accepted) "res0 = Inr True"
    | (rejected) "res0 = Inr False"
    by (cases res0) auto
  then show ?thesis
  proof cases
    case raised
    then show ?thesis
      unfolding body and_then_def try_except_def handle_try_candidates[OF tg] run
        reply_text_ok[OF tg] remove_if_exists_eq ret_def
      using files replies by simp
  next
    case accepted
    then show ?thesis
      unfolding body and_then_def try_except_def handle_try_candidates[OF tg] run
        reply_text_ok[OF tg] remove_if_exists_eq ret_def
      using files replies by simp
  next
    case rejected
    then show ?thesis
      unfolding body and_then_def try_except_def handle_try_candidates[OF tg] run
        reply_text_ok[OF tg] remove_if_exists_eq ret_def
      using files replies by simp
  qed
qed

lemma try_candidates_prefix:
  assumes run: "spec_try_candidates endpoint cs w = (res0, w1)" and ne: "cs \<noteq> []"
  shows "\<exists>k. 0 < k \<and> k \<le> length cs \<and>
     requests w1 = requests w @ map lookup_url (take k cs) \<and>
     (\<forall>i < k. Suc i < k \<longrightarrow>
        attempt_outcome endpoint (length (requests w) + i) (cs ! i) = Rejected) \<and>
     (attempt_outcome endpoint (length (requests w) + (k - 1)) (cs ! (k - 1)) = Rejected
        \<longrightarrow> k = length cs) \<and>
     (\<forall>e. attempt_outcome endpoint (length (requests w) + (k - 1)) (cs ! (k - 1)) = Raised e
        \<longrightarrow> res0 = Inl e)"
proof -
  let ?out = "\<lambda>i. attempt_outcome endpoint (length (requests w) + i) (cs ! i)"
  from try_candidates_trace[OF run] obtain k where k: "k \<le> length cs"
    and w1: "w1 = w\<lparr>requests := requests w @ map lookup_url (take k cs)\<rparr>"
    and before: "\<forall>i < k. Suc i < k \<longrightarrow> ?out i = Rejected"
    and final: "case res0 of
        Inl e \<Rightarrow> 0 < k \<and> ?out (k - 1) = Raised e
      | Inr True \<Rightarrow> 0 < k \<and> ?out (k - 1) = Accepted
      | Inr False \<Rightarrow> k = length cs \<and> (\<forall>i < k. ?out i = Rejected)"
    by blast
  have pos: "0 < k"
    using final ne by (auto split: sum.splits bool.splits)
  have reqs: "requests w1 = requests w @ map lookup_url (take k cs)"
    unfolding w1 by simp
  consider (raised) e where "res0 = Inl e" | (accepted) "res0 = Inr True"
    | (rejected) "res0 = Inr False"
    by (cases res0) auto
  then have last: "(?out (k - 1) = Rejected \<longrightarrow> k = length cs) \<and>
      (\<forall>e. ?out (k - 1) = Raised e \<longrightarrow> res0 = Inl e)"
  proof cases
    case raised
    have "0 < k \<and> ?out (k - 1) = Raised e"
      using final unfolding raised sum.case .
    then have out: "?out (k - 1) = Raised e" by (rule conjunct2)
    show ?thesis unfolding out using raised by simp
  next
    case accepted
    have "0 < k \<and> ?out (k - 1) = Accepted"
      using final unfolding accepted sum.case bool.case .
    then have out: "?out (k - 1) = Accepted" by (rule conjunct2)
    show ?thesis unfolding out by simp
  next
    case rejected
    have "k = length cs \<and> (\<forall>i < k. ?out i = Rejected)"
      using final unfolding rejected sum.case bool.case .
    then have all: "\<forall>i < k. ?out i = Rejected" and len: "k = length cs"
      by blast+
    have "k - 1 < k" using pos by simp
    then have out: "?out (k - 1) = Rejected" using all by blast
    show ?thesis unfolding out using len by simp
  qed
  show ?thesis using pos k reqs before last by blast
qed





lemma candidates_both:
  assumes "(cp CHR ''O'') \<in> set tx_id" and "(cp CHR ''0'') \<in> set tx_id"
  shows "spec_candidates tx_id =
    [tx_id, py_replace tx_id (cp CHR ''O'') (str_of ''0''), py_replace tx_id (cp CHR ''0'') (str_of ''O'')]"
  using assms unfolding spec_candidates_def replace_O replace_0 by simp

lemma try_three_candidates:
  assumes run: "spec_try_candidates endpoint [a, b, c] w = (res0, w1)"
  shows "(\<exists>k. 1 \<le> k \<and> k \<le> 3 \<and>
            requests w1 = requests w @ map lookup_url (take k [a, b, c])) \<and>
         (attempt_outcome endpoint (length (requests w)) a = Rejected \<and>
          attempt_outcome endpoint (Suc (length (requests w))) b = Rejected \<longrightarrow>
            requests w1 = requests w @ [lookup_url a, lookup_url b, lookup_url c])"
proof -
  let ?cs = "[a, b, c]"
  let ?out = "\<lambda>i. attempt_outcome endpoint (length (requests w) + i) (?cs ! i)"
  have ne: "?cs \<noteq> []" by simp
  from try_candidates_prefix[OF run ne] obtain k where pos: "0 < k" and k: "k \<le> length ?cs"
    and reqs: "requests w1 = requests w @ map lookup_url (take k ?cs)"
    and last: "?out (k - 1) = Rejected \<longrightarrow> k = length ?cs"
    by blast
  have first: "\<exists>k. 1 \<le> k \<and> k \<le> 3 \<and> requests w1 = requests w @ map lookup_url (take k ?cs)"
    using pos k reqs by (intro exI[of _ k]) simp
  have all: "requests w1 = requests w @ [lookup_url a, lookup_url b, lookup_url c]"
    if rej: "attempt_outcome endpoint (length (requests w)) a = Rejected \<and>
          attempt_outcome endpoint (Suc (length (requests w))) b = Rejected"
  proof -
    consider "k = 1" | "k = 2" | "k = 3" using pos k by (auto simp: numeral_eq_Suc le_Suc_eq)
    then have "k = 3"
    proof cases
      case 1
      then have "?out (k - 1) = Rejected" using rej by simp
      then show ?thesis using last 1 by simp
    next
      case 2
      then have "?out (k - 1) = Rejected" using rej by simp
      then show ?thesis using last 2 by simp
    next
      case 3
      then show ?thesis .
    qed
    then show ?thesis using reqs by simp
  qed
  show ?thesis using first all by blast
qed

text \<open>
  C4, as the specification states it, fails: when the raw identifier \<^verbatim>\<open>AB01O3\<close> and
  its \<open>O\<close> to \<open>0\<close> variant are both rejected, both \<^verbatim>\<open>verify_telebirr_receipt\<close> and
  \<^verbatim>\<open>handle_photo\<close> go on to request the \<open>0\<close> to \<open>O\<close> variant of the raw identifier,
  which makes three attempts.
\<close>

theorem both_substitutions_three_attempts:
  "verify_telebirr_receipt endpoint_rejects (str_of ''AB01O3'') TELEBIRR_VERIFICATION_URL world0 =
     (Inr False,
      world0\<lparr>requests := [lookup_url (str_of ''AB01O3''), lookup_url (str_of ''AB0103''), lookup_url (str_of ''ABO1O3'')]\<rparr>) \<and>
   handle_photo \<lparr>env_endpoint = endpoint_rejects,
       env_ocr = ocr_reads [(str_of ''Transaction''), (str_of ''Number:''), (str_of ''AB01O3'')],
       env_telegram = telegram_ok\<rparr> (str_of ''f1'') world0 =
     (Inr (),
      \<lparr>requests = [lookup_url (str_of ''AB01O3''), lookup_url (str_of ''AB0103''), lookup_url (str_of ''ABO1O3'')],
       replies = [Processing, NotVerified], files = {}\<rparr>)"
  by code_simp

text \<open>
  C4, amended. For a raw identifier that has both an \<open>O\<close> and a \<open>0\<close>, a run requests
  a non-empty prefix of three lookup URLs: the raw identifier, its \<open>O\<close> to \<open>0\<close> variant,
  and the \<open>0\<close> to \<open>O\<close> variant of the raw identifier, so that at most three attempts are
  made and the two substitutions are never combined. When the first two are rejected,
  the third is requested. This holds for \<^verbatim>\<open>verify_telebirr_receipt\<close> and, when the
  Telegram client delivers its messages, for \<^verbatim>\<open>handle_photo\<close>.
\<close>

theorem both_substitutions_order:
  assumes "(cp CHR ''O'') \<in> set tx_id" and "(cp CHR ''0'') \<in> set tx_id"
  shows
  "(verify_telebirr_receipt endpoint tx_id TELEBIRR_VERIFICATION_URL w = (res, w') \<longrightarrow>
      (\<exists>k. 1 \<le> k \<and> k \<le> 3 \<and>
         requests w' = requests w @ map lookup_url
           (take k [tx_id, py_replace tx_id (cp CHR ''O'') (str_of ''0''), py_replace tx_id (cp CHR ''0'') (str_of ''O'')])) \<and>
      (attempt_outcome endpoint (length (requests w)) tx_id = Rejected \<and>
       attempt_outcome endpoint (Suc (length (requests w)))
         (py_replace tx_id (cp CHR ''O'') (str_of ''0'')) = Rejected \<longrightarrow>
         requests w' = requests w @
           [lookup_url tx_id, lookup_url (py_replace tx_id (cp CHR ''O'') (str_of ''0'')),
            lookup_url (py_replace tx_id (cp CHR ''0'') (str_of ''O''))])) \<and>
   ((\<forall>n. env_telegram env n = None) \<and>
    bot_process_image_for_txid (env_ocr env) ((str_of ''downloads/'') @ file_id @ (str_of ''.jpg'')) =
      Inr (bank_name, Some tx_id, verify_url) \<and>
    handle_photo env file_id w = (res', w'') \<longrightarrow>
      (\<exists>k. 1 \<le> k \<and> k \<le> 3 \<and>
         requests w'' = requests w @ map lookup_url
           (take k [tx_id, py_replace tx_id (cp CHR ''O'') (str_of ''0''), py_replace tx_id (cp CHR ''0'') (str_of ''O'')])) \<and>
      (attempt_outcome (env_endpoint env) (length (requests w)) tx_id = Rejected \<and>
       attempt_outcome (env_endpoint env) (Suc (length (requests w)))
         (py_replace tx_id (cp CHR ''O'') (str_of ''0'')) = Rejected \<longrightarrow>
         requests w'' = requests w @
           [lookup_url tx_id, lookup_url (py_replace tx_id (cp CHR ''O'') (str_of ''0'')),
            lookup_url (py_replace tx_id (cp CHR ''0'') (str_of ''O''))]))"
proof (rule conjI)
  let ?cs = "[tx_id, py_replace tx_id (cp CHR ''O'') (str_of ''0''), py_replace tx_id (cp CHR ''0'') (str_of ''O'')]"
  have cs: "spec_candidates tx_id = ?cs" using assms by (rule candidates_both)
  show "verify_telebirr_receipt endpoint tx_id TELEBIRR_VERIFICATION_URL w = (res, w') \<longrightarrow>
      (\<exists>k. 1 \<le> k \<and> k \<le> 3 \<and> requests w' = requests w @ map lookup_url (take k ?cs)) \<and>
      (attempt_outcome endpoint (length (requests w)) tx_id = Rejected \<and>
       attempt_outcome endpoint (Suc (length (requests w)))
         (py_replace tx_id (cp CHR ''O'') (str_of ''0'')) = Rejected \<longrightarrow>
         requests w' = requests w @
           [lookup_url tx_id, lookup_url (py_replace tx_id (cp CHR ''O'') (str_of ''0'')),
            lookup_url (py_replace tx_id (cp CHR ''0'') (str_of ''O''))])"
  proof
    assume run: "verify_telebirr_receipt endpoint tx_id TELEBIRR_VERIFICATION_URL w = (res, w')"
    from verify_cases[OF run] obtain res0 where
      "spec_try_candidates endpoint (spec_candidates tx_id) w = (res0, w')" by blast
    then have "spec_try_candidates endpoint ?cs w = (res0, w')" unfolding cs .
    then show "(\<exists>k. 1 \<le> k \<and> k \<le> 3 \<and>
          requests w' = requests w @ map lookup_url (take k ?cs)) \<and>
      (attempt_outcome endpoint (length (requests w)) tx_id = Rejected \<and>
       attempt_outcome endpoint (Suc (length (requests w)))
         (py_replace tx_id (cp CHR ''O'') (str_of ''0'')) = Rejected \<longrightarrow>
         requests w' = requests w @
           [lookup_url tx_id, lookup_url (py_replace tx_id (cp CHR ''O'') (str_of ''0'')),
            lookup_url (py_replace tx_id (cp CHR ''0'') (str_of ''O''))])"
      by (rule try_three_candidates)
  qed
next
  let ?cs = "[tx_id, py_replace tx_id (cp CHR ''O'') (str_of ''0''), py_replace tx_id (cp CHR ''0'') (str_of ''O'')]"
  let ?fp = "(str_of ''downloads/'') @ file_id @ (str_of ''.jpg'')"
  let ?w0 = "w\<lparr>files := insert ?fp (files w), replies := replies w @ [Processing]\<rparr>"
  have cs: "spec_candidates tx_id = ?cs" using assms by (rule candidates_both)
  show "(\<forall>n. env_telegram env n = None) \<and>
    bot_process_image_for_txid (env_ocr env) ?fp = Inr (bank_name, Some tx_id, verify_url) \<and>
    handle_photo env file_id w = (res', w'') \<longrightarrow>
      (\<exists>k. 1 \<le> k \<and> k \<le> 3 \<and> requests w'' = requests w @ map lookup_url (take k ?cs)) \<and>
      (attempt_outcome (env_endpoint env) (length (requests w)) tx_id = Rejected \<and>
       attempt_outcome (env_endpoint env) (Suc (length (requests w)))
         (py_replace tx_id (cp CHR ''O'') (str_of ''0'')) = Rejected \<longrightarrow>
         requests w'' = requests w @
           [lookup_url tx_id, lookup_url (py_replace tx_id (cp CHR ''O'') (str_of ''0'')),
            lookup_url (py_replace tx_id (cp CHR ''0'') (str_of ''O''))])"
  proof
    assume a: "(\<forall>n. env_telegram env n = None) \<and>
      bot_process_image_for_txid (env_ocr env) ?fp = Inr (bank_name, Some tx_id, verify_url) \<and>
      handle_photo env file_id w = (res', w'')"
    have tg: "\<forall>n. env_telegram env n = None"
      and ocr: "bot_process_image_for_txid (env_ocr env) ?fp =
        Inr (bank_name, Some tx_id, verify_url)"
      and run: "handle_photo env file_id w = (res', w'')"
      using a by simp_all
    have ocr': "bot_process_image_for_txid (env_ocr env) ?fp =
        Inr (Some (str_of ''Telebirr''), Some tx_id, Some TELEBIRR_VERIFICATION_URL)"
      using bot_process_cases[of "env_ocr env" ?fp] ocr by auto
    have tx: "tx_id \<noteq> []" using assms(1) by auto
    obtain res0 w1 where run0:
      "spec_try_candidates (env_endpoint env) (spec_candidates tx_id) ?w0 = (res0, w1)"
      by (cases "spec_try_candidates (env_endpoint env) (spec_candidates tx_id) ?w0") auto
    have same: "requests w'' = requests w1"
      using run unfolding handle_photo_candidates[OF tg ocr' tx] run0
      by (auto split: sum.splits bool.splits if_splits)
    have "spec_try_candidates (env_endpoint env) ?cs ?w0 = (res0, w1)"
      using run0 unfolding cs .
    from try_three_candidates[OF this]
    show "(\<exists>k. 1 \<le> k \<and> k \<le> 3 \<and>
          requests w'' = requests w @ map lookup_url (take k ?cs)) \<and>
      (attempt_outcome (env_endpoint env) (length (requests w)) tx_id = Rejected \<and>
       attempt_outcome (env_endpoint env) (Suc (length (requests w)))
         (py_replace tx_id (cp CHR ''O'') (str_of ''0'')) = Rejected \<longrightarrow>
         requests w'' = requests w @
           [lookup_url tx_id, lookup_url (py_replace tx_id (cp CHR ''O'') (str_of ''0'')),
            lookup_url (py_replace tx_id (cp CHR ''0'') (str_of ''O''))])"
      unfolding same by simp
  qed
qed

theorem both_substitutions_order_witness:
  "(cp CHR ''O'') \<in> set (str_of ''AB01O3'') \<and> (cp CHR ''0'') \<in> set (str_of ''AB01O3'') \<and>
   attempt_outcome endpoint_rejects (length (requests world0)) (str_of ''AB01O3'') = Rejected \<and>
   attempt_outcome endpoint_rejects (Suc (length (requests world0)))
     (py_replace (str_of ''AB01O3'') (cp CHR ''O'') (str_of ''0'')) = Rejected \<and>
   requests (snd (verify_telebirr_receipt endpoint_rejects (str_of ''AB01O3'')
                    TELEBIRR_VERIFICATION_URL world0)) =
     requests world0 @
       [lookup_url (str_of ''AB01O3''), lookup_url (py_replace (str_of ''AB01O3'') (cp CHR ''O'') (str_of ''0'')),
        lookup_url (py_replace (str_of ''AB01O3'') (cp CHR ''0'') (str_of ''O''))] \<and>
   requests (snd (handle_photo \<lparr>env_endpoint = endpoint_rejects,
       env_ocr = ocr_reads [(str_of ''Transaction''), (str_of ''Number:''), (str_of ''AB01O3'')],
       env_telegram = telegram_ok\<rparr> (str_of ''f1'') world0)) =
     requests world0 @
       [lookup_url (str_of ''AB01O3''), lookup_url (py_replace (str_of ''AB01O3'') (cp CHR ''O'') (str_of ''0'')),
        lookup_url (py_replace (str_of ''AB01O3'') (cp CHR ''0'') (str_of ''O''))]"
proof -
  let ?tx = "(str_of ''AB01O3'')"
  let ?env = "\<lparr>env_endpoint = endpoint_rejects,
       env_ocr = ocr_reads [(str_of ''Transaction''), (str_of ''Number:''), (str_of ''AB01O3'')],
       env_telegram = telegram_ok\<rparr>"
  let ?r1 = "verify_telebirr_receipt endpoint_rejects ?tx TELEBIRR_VERIFICATION_URL world0"
  let ?r2 = "handle_photo ?env (str_of ''f1'') world0"
  have o: "(cp CHR ''O'') \<in> set ?tx" and z: "(cp CHR ''0'') \<in> set ?tx" by simp_all
  have rej: "attempt_outcome endpoint_rejects (length (requests world0)) ?tx = Rejected \<and>
      attempt_outcome endpoint_rejects (Suc (length (requests world0)))
        (py_replace ?tx (cp CHR ''O'') (str_of ''0'')) = Rejected"
    by (simp add: attempt_outcome_def endpoint_rejects_def)
  have rej': "attempt_outcome (env_endpoint ?env) (length (requests world0)) ?tx = Rejected \<and>
      attempt_outcome (env_endpoint ?env) (Suc (length (requests world0)))
        (py_replace ?tx (cp CHR ''O'') (str_of ''0'')) = Rejected"
    using rej by simp
  have run1: "?r1 = (fst ?r1, snd ?r1)" by simp
  have run2: "?r2 = (fst ?r2, snd ?r2)" by simp
  have tg: "\<forall>n. env_telegram ?env n = None" by (simp add: telegram_ok_def)
  have ocr: "bot_process_image_for_txid (env_ocr ?env) ((str_of ''downloads/'') @ (str_of ''f1'') @ (str_of ''.jpg'')) =
      Inr (Some (str_of ''Telebirr''), Some ?tx, Some (str_of ''https://transactioninfo.ethiotelecom.et/receipt/{}''))"
    by code_simp
  note inst = both_substitutions_order[OF o z, of endpoint_rejects world0 "fst ?r1" "snd ?r1"
      ?env "(str_of ''f1'')" "Some (str_of ''Telebirr'')"
      "Some (str_of ''https://transactioninfo.ethiotelecom.et/receipt/{}'')" "fst ?r2" "snd ?r2"]
  have 1: "requests (snd ?r1) = requests world0 @
       [lookup_url ?tx, lookup_url (py_replace ?tx (cp CHR ''O'') (str_of ''0'')),
        lookup_url (py_replace ?tx (cp CHR ''0'') (str_of ''O''))]"
    using conjunct1[OF inst] run1 rej by blast
  have 2: "requests (snd ?r2) = requests world0 @
       [lookup_url ?tx, lookup_url (py_replace ?tx (cp CHR ''O'') (str_of ''0'')),
        lookup_url (py_replace ?tx (cp CHR ''0'') (str_of ''O''))]"
    using conjunct2[OF inst] tg ocr run2 rej' by blast
  show ?thesis using o z rej 1 2 by blast
qed

section \<open>The claim about the downloaded file\<close>

lemma and_then_Inr:
  "and_then m f w = (Inr y, w') \<Longrightarrow> \<exists>x w1. m w = (Inr x, w1) \<and> f x w1 = (Inr y, w')"
  by (auto simp: and_then_def split: prod.splits sum.splits)

lemma correction_returns_clean:
  assumes "and_then (requests_get endpoint url)
             (\<lambda>normalized_response.
                if is_success normalized_response
                then and_then (reply_text env m1) (\<lambda>_.
                     and_then (reply_text env m2) (\<lambda>_.
                     and_then (remove_if_exists file_path) (\<lambda>_. ret True)))
                else ret False) w = (Inr True, w')"
  shows "file_path \<notin> files w'"
proof -
  from and_then_Inr[OF assms] obtain r w1 where
    "(if is_success r
      then and_then (reply_text env m1) (\<lambda>_.
           and_then (reply_text env m2) (\<lambda>_.
           and_then (remove_if_exists file_path) (\<lambda>_. ret True)))
      else ret False) w1 = (Inr True, w')"
    by blast
  then have "and_then (reply_text env m1) (\<lambda>_.
           and_then (reply_text env m2) (\<lambda>_.
           and_then (remove_if_exists file_path) (\<lambda>_. ret True))) w1 = (Inr True, w')"
    by (auto simp: ret_def split: if_splits)
  from and_then_Inr[OF this] obtain w2 where
    "and_then (reply_text env m2) (\<lambda>_.
           and_then (remove_if_exists file_path) (\<lambda>_. ret True)) w2 = (Inr True, w')"
    by blast
  from and_then_Inr[OF this] obtain w3 where
    "and_then (remove_if_exists file_path) (\<lambda>_. ret True) w3 = (Inr True, w')"
    by blast
  then show ?thesis
    by (auto simp: and_then_def remove_if_exists_def ret_def split: if_splits)
qed

lemma handle_try_returns_clean:
  assumes "handle_try env file_path tx_id verify_url full_url w = (Inr True, w')"
  shows "file_path \<notin> files w'"
proof -
  from and_then_Inr[OF assms[unfolded handle_try_def]] obtain response w1 where
    rest: "(if is_success response
       then and_then (reply_text env Valid) (\<lambda>_.
            and_then (reply_text env (ViewReceipt full_url)) (\<lambda>_. ret False))
       else
         and_then
           (if py_in (str_of ''O'') tx_id
            then (let normalized_tx_id = py_replace tx_id (cp CHR ''O'') (str_of ''0'');
                      normalized_url = py_format verify_url normalized_tx_id
                  in and_then (requests_get (env_endpoint env) normalized_url)
                       (\<lambda>normalized_response.
                          if is_success normalized_response
                          then and_then (reply_text env ValidAfterO0) (\<lambda>_.
                               and_then (reply_text env (ViewReceipt normalized_url)) (\<lambda>_.
                               and_then (remove_if_exists file_path) (\<lambda>_. ret True)))
                          else ret False))
            else ret False)
           (\<lambda>returned.
              if returned then ret True
              else
                and_then
                  (if py_in (str_of ''0'') tx_id
                   then (let normalized_tx_id = py_replace tx_id (cp CHR ''0'') (str_of ''O'');
                             normalized_url = py_format verify_url normalized_tx_id
                         in and_then (requests_get (env_endpoint env) normalized_url)
                              (\<lambda>normalized_response.
                                 if is_success normalized_response
                                 then and_then (reply_text env ValidAfter0O) (\<lambda>_.
                                      and_then (reply_text env (ViewReceipt normalized_url)) (\<lambda>_.
                                      and_then (remove_if_exists file_path) (\<lambda>_. ret True)))
                                 else ret False))
                   else ret False)
                  (\<lambda>returned.
                     if returned then ret True
                     else and_then (reply_text env NotVerified) (\<lambda>_. ret False)))) w1 =
       (Inr True, w')"
    by blast
  show ?thesis
  proof (cases "is_success response")
    case True
    then have "and_then (reply_text env Valid) (\<lambda>_.
            and_then (reply_text env (ViewReceipt full_url)) (\<lambda>_. ret False)) w1 = (Inr True, w')"
      using rest by simp
    from and_then_Inr[OF this] obtain w2 where
      "and_then (reply_text env (ViewReceipt full_url)) (\<lambda>_. ret False) w2 = (Inr True, w')"
      by blast
    from and_then_Inr[OF this] show ?thesis by (simp add: ret_def)
  next
    case False
    from and_then_Inr[OF rest[unfolded if_not_P[OF False]]] obtain returned w2 where
      first: "(if py_in (str_of ''O'') tx_id
            then (let normalized_tx_id = py_replace tx_id (cp CHR ''O'') (str_of ''0'');
                      normalized_url = py_format verify_url normalized_tx_id
                  in and_then (requests_get (env_endpoint env) normalized_url)
                       (\<lambda>normalized_response.
                          if is_success normalized_response
                          then and_then (reply_text env ValidAfterO0) (\<lambda>_.
                               and_then (reply_text env (ViewReceipt normalized_url)) (\<lambda>_.
                               and_then (remove_if_exists file_path) (\<lambda>_. ret True)))
                          else ret False))
            else ret False) w1 = (Inr returned, w2)"
      and after: "(if returned then ret True
              else
                and_then
                  (if py_in (str_of ''0'') tx_id
                   then (let normalized_tx_id = py_replace tx_id (cp CHR ''0'') (str_of ''O'');
                             normalized_url = py_format verify_url normalized_tx_id
                         in and_then (requests_get (env_endpoint env) normalized_url)
                              (\<lambda>normalized_response.
                                 if is_success normalized_response
                                 then and_then (reply_text env ValidAfter0O) (\<lambda>_.
                                      and_then (reply_text env (ViewReceipt normalized_url)) (\<lambda>_.
                                      and_then (remove_if_exists file_path) (\<lambda>_. ret True)))
                                 else ret False))
                   else ret False)
                  (\<lambda>returned.
                     if returned then ret True
                     else and_then (reply_text env NotVerified) (\<lambda>_. ret False))) w2 =
         (Inr True, w')"
      by blast
    show ?thesis
    proof (cases returned)
      case True
      then have "w' = w2" using after by (simp add: ret_def)
      moreover have "file_path \<notin> files w2"
        using first True
        by (cases "py_in (str_of ''O'') tx_id")
           (auto simp: Let_def ret_def dest: correction_returns_clean)
      ultimately show ?thesis by simp
    next
      case False
      from and_then_Inr[OF after[unfolded if_not_P[OF False]]] obtain returned2 w3 where
        second: "(if py_in (str_of ''0'') tx_id
                   then (let normalized_tx_id = py_replace tx_id (cp CHR ''0'') (str_of ''O'');
                             normalized_url = py_format verify_url normalized_tx_id
                         in and_then (requests_get (env_endpoint env) normalized_url)
                              (\<lambda>normalized_response.
                                 if is_success normalized_response
                                 then and_then (reply_text env ValidAfter0O) (\<lambda>_.
                                      and_then (reply_text env (ViewReceipt normalized_url)) (\<lambda>_.
                                      and_then (remove_if_exists file_path) (\<lambda>_. ret True)))
                                 else ret False))
                   else ret False) w2 = (Inr returned2, w3)"
        and fin: "(if returned2 then ret True
                     else and_then (reply_text env NotVerified) (\<lambda>_. ret False)) w3 =
          (Inr True, w')"
        by blast
      show ?thesis
      proof (cases returned2)
        case True
        then have "w' = w3" using fin by (simp add: ret_def)
        moreover have "file_path \<notin> files w3"
          using second True
          by (cases "py_in (str_of ''0'') tx_id")
             (auto simp: Let_def ret_def dest: correction_returns_clean)
        ultimately show ?thesis by simp
      next
        case False
        then have "and_then (reply_text env NotVerified) (\<lambda>_. ret False) w3 = (Inr True, w')"
          using fin by simp
        from and_then_Inr[OF this] show ?thesis by (simp add: ret_def)
      qed
    qed
  qed
qed

lemma reply_then_false:
  "and_then (reply_text env m) (\<lambda>_. ret False) w = (Inr True, w') \<Longrightarrow> False"
  by (auto simp: and_then_def ret_def split: prod.splits sum.splits)

lemma try_except_returned:
  assumes "try_except (handle_try env file_path tx_id verify_url full_url)
             (\<lambda>e. e = RequestException)
             (and_then (reply_text env TransportError) (\<lambda>_. ret False)) w = (Inr True, w')"
  shows "file_path \<notin> files w'"
proof (cases "handle_try env file_path tx_id verify_url full_url w")
  case (Pair r w1)
  show ?thesis
  proof (cases r)
    case (Inl e)
    then have "e = RequestException \<and>
        and_then (reply_text env TransportError) (\<lambda>_. ret False) w1 = (Inr True, w')"
      using assms Pair by (auto simp: try_except_def split: if_splits)
    then show ?thesis using reply_then_false by blast
  next
    case (Inr b)
    then have "handle_try env file_path tx_id verify_url full_url w = (Inr True, w')"
      using assms Pair by (simp add: try_except_def)
    then show ?thesis by (rule handle_try_returns_clean)
  qed
qed

lemma handle_photo_returns_clean:
  assumes "handle_photo env file_id w = (Inr (), w')"
  shows "(str_of ''downloads/'') @ file_id @ (str_of ''.jpg'') \<notin> files w'"
proof -
  let ?fp = "(str_of ''downloads/'') @ file_id @ (str_of ''.jpg'')"
  from and_then_Inr[OF assms[unfolded handle_photo_def Let_def]] obtain u1 w1 where
    "and_then (reply_text env Processing) (\<lambda>_.
         and_then (\<lambda>w. (bot_process_image_for_txid (env_ocr env) ?fp, w))
           (\<lambda>(bank_name, tx_id, verify_url).
              and_then
                (case (tx_id, verify_url) of
                   (Some tx_id, Some verify_url) \<Rightarrow>
                     if tx_id \<noteq> [] \<and> verify_url \<noteq> []
                     then try_except
                            (handle_try env ?fp tx_id verify_url
                               (py_format verify_url tx_id))
                            (\<lambda>e. e = RequestException)
                            (and_then (reply_text env TransportError) (\<lambda>_. ret False))
                     else and_then (reply_text env NoTransactionId) (\<lambda>_. ret False)
                 | _ \<Rightarrow> and_then (reply_text env NoTransactionId) (\<lambda>_. ret False))
                (\<lambda>returned. if returned then ret () else remove_if_exists ?fp))) w1 =
     (Inr (), w')"
    by blast
  from and_then_Inr[OF this] obtain u2 w2 where
    "and_then (\<lambda>w. (bot_process_image_for_txid (env_ocr env) ?fp, w))
           (\<lambda>(bank_name, tx_id, verify_url).
              and_then
                (case (tx_id, verify_url) of
                   (Some tx_id, Some verify_url) \<Rightarrow>
                     if tx_id \<noteq> [] \<and> verify_url \<noteq> []
                     then try_except
                            (handle_try env ?fp tx_id verify_url
                               (py_format verify_url tx_id))
                            (\<lambda>e. e = RequestException)
                            (and_then (reply_text env TransportError) (\<lambda>_. ret False))
                     else and_then (reply_text env NoTransactionId) (\<lambda>_. ret False)
                 | _ \<Rightarrow> and_then (reply_text env NoTransactionId) (\<lambda>_. ret False))
                (\<lambda>returned. if returned then ret () else remove_if_exists ?fp)) w2 =
     (Inr (), w')"
    by blast
  from and_then_Inr[OF this] obtain bank_name tx_id verify_url w3 where
    "and_then
       (case (tx_id, verify_url) of
          (Some tx_id, Some verify_url) \<Rightarrow>
            if tx_id \<noteq> [] \<and> verify_url \<noteq> []
            then try_except
                   (handle_try env ?fp tx_id verify_url (py_format verify_url tx_id))
                   (\<lambda>e. e = RequestException)
                   (and_then (reply_text env TransportError) (\<lambda>_. ret False))
            else and_then (reply_text env NoTransactionId) (\<lambda>_. ret False)
        | _ \<Rightarrow> and_then (reply_text env NoTransactionId) (\<lambda>_. ret False))
       (\<lambda>returned. if returned then ret () else remove_if_exists ?fp) w3 = (Inr (), w')"
    by (auto split: prod.splits)
  from and_then_Inr[OF this] obtain returned w4 where
    branch: "(case (tx_id, verify_url) of
          (Some tx_id, Some verify_url) \<Rightarrow>
            if tx_id \<noteq> [] \<and> verify_url \<noteq> []
            then try_except
                   (handle_try env ?fp tx_id verify_url (py_format verify_url tx_id))
                   (\<lambda>e. e = RequestException)
                   (and_then (reply_text env TransportError) (\<lambda>_. ret False))
            else and_then (reply_text env NoTransactionId) (\<lambda>_. ret False)
        | _ \<Rightarrow> and_then (reply_text env NoTransactionId) (\<lambda>_. ret False)) w3 =
      (Inr returned, w4)"
    and fin: "(if returned then ret () else remove_if_exists ?fp) w4 = (Inr (), w')"
    by blast
  show ?thesis
  proof (cases returned)
    case False
    then show ?thesis using fin by (auto simp: remove_if_exists_def split: if_splits)
  next
    case True
    then have w': "w' = w4" using fin by (simp add: ret_def)
    have "?fp \<notin> files w4"
      using branch True
      by (auto split: option.splits if_splits
          dest: reply_then_false try_except_returned)
    then show ?thesis using w' by simp
  qed
qed

text \<open>
  C8. The downloaded file is removed on every path on which \<^verbatim>\<open>handle_photo\<close> returns
  (lemma \<open>handle_photo_returns_clean\<close>), but the handler has no \<^verbatim>\<open>finally\<close> clause: an
  exception other than \<^verbatim>\<open>RequestException\<close> leaves it before any clean-up. Here the
  receipt is read and accepted by the endpoint, sending the congratulation raises an
  error of the Telegram client, and the file is still on disk when the handler ends.
\<close>

theorem handle_photo_leaves_file:
  "handle_photo \<lparr>env_endpoint = endpoint_accepts,
       env_ocr = ocr_reads [(str_of ''Transaction''), (str_of ''Number:''), (str_of ''AB123'')],
       env_telegram = telegram_fails_at 1\<rparr> (str_of ''f1'') world0 =
     (Inl NetworkError,
      \<lparr>requests = [lookup_url (str_of ''AB123'')], replies = [Processing],
       files = {(str_of ''downloads/f1.jpg'')}\<rparr>)"
  by code_simp

end
